theory Spec2Isabelle
  imports Complex_Main
begin

section \<open>Stack-VR: the placement state machine and the rubble pool\<close>

text \<open>
  A shallow embedding of the gameplay core of the repository: \<^verbatim>\<open>state.js\<close> (the state
  object and \<^verbatim>\<open>resetGameState\<close>), \<^verbatim>\<open>game.js\<close> (\<^verbatim>\<open>spawnNewBlock\<close>,
  \<^verbatim>\<open>spawnRubble\<close>, \<^verbatim>\<open>placeBlock\<close>, \<^verbatim>\<open>continueGame\<close>, \<^verbatim>\<open>gameOver\<close>,
  \<^verbatim>\<open>startGame\<close>, \<^verbatim>\<open>backToMenu\<close>, \<^verbatim>\<open>resumeGame\<close>, \<^verbatim>\<open>pauseGame\<close>,
  \<^verbatim>\<open>cleanup\<close>), \<^verbatim>\<open>powerups.js\<close>, the rubble part of \<^verbatim>\<open>initEngine\<close> with
  \<^verbatim>\<open>createFoundation\<close>, and the two simulation blocks of \<^verbatim>\<open>animate\<close> in
  \<^verbatim>\<open>main-vr.js\<close>.

  Conventions of the model.
  \<^item> A JavaScript number is a \<^typ>\<open>real\<close>: arithmetic is exact, there is no rounding and
    no NaN. Counters that the code only increments, decrements and compares are \<^typ>\<open>int\<close>.
  \<^item> The single mutable \<^verbatim>\<open>state\<close> object is a record that every function takes and
    returns. A mesh is a record of its position, its box dimensions and the two
    \<^verbatim>\<open>userData\<close> entries; materials, colours, particles, camera, audio, DOM, storage and
    the ad service are outside the model.
  \<^item> \<^verbatim>\<open>performance.now()\<close> and the results of \<^verbatim>\<open>Math.random()\<close> are parameters.
  \<^item> The module variables \<^verbatim>\<open>scene\<close> and \<^verbatim>\<open>rubbleInstances\<close> of the graphics module
    are \<^verbatim>\<open>null\<close> until \<^verbatim>\<open>initEngine\<close> has run; the record \<open>gfx\<close> says which of them
    is set.
  \<^item> Reading a property of \<^verbatim>\<open>undefined\<close> or \<^verbatim>\<open>null\<close> throws a TypeError: the
    functions that can do so return \<open>error + state\<close>.
\<close>

subsection \<open>Data model\<close>

datatype error = TypeError

datatype status = LOADING | START | PLAYING | PAUSED | GAMEOVER

datatype axis = AxisX | AxisZ

datatype difficulty = easy | medium | hard

datatype powerUp = slowMo | safetyNet | superSize | resetSize

record vec3 =
  vec_x :: real
  vec_y :: real
  vec_z :: real

text \<open>\<^verbatim>\<open>v[axis]\<close> and \<^verbatim>\<open>v[axis] = c\<close> for \<^verbatim>\<open>axis\<close> one of \<^verbatim>\<open>'x'\<close>, \<^verbatim>\<open>'z'\<close>.\<close>

fun getAxis :: "axis \<Rightarrow> vec3 \<Rightarrow> real" where
  "getAxis AxisX v = vec_x v"
| "getAxis AxisZ v = vec_z v"

fun setAxis :: "axis \<Rightarrow> real \<Rightarrow> vec3 \<Rightarrow> vec3" where
  "setAxis AxisX c v = v\<lparr>vec_x := c\<rparr>"
| "setAxis AxisZ c v = v\<lparr>vec_z := c\<rparr>"

text \<open>\<^verbatim>\<open>axis === 'x' ? 'z' : 'x'\<close>\<close>

definition otherAxis :: "axis \<Rightarrow> axis" where
  "otherAxis a = (if a = AxisX then AxisZ else AxisX)"

text \<open>
  A block mesh: \<open>width\<close> and \<open>depth\<close> are \<^verbatim>\<open>geometry.parameters.width/depth\<close>;
  \<open>baseWidth\<close> and \<open>baseDepth\<close> are \<^verbatim>\<open>userData.baseWidth/baseDepth\<close>, \<open>None\<close> when
  the entry is \<^verbatim>\<open>undefined\<close>.
\<close>

record block =
  position :: vec3
  width :: real
  depth :: real
  baseWidth :: "real option"
  baseDepth :: "real option"

text \<open>\<^verbatim>\<open>a || b\<close> on a possibly undefined number: \<^verbatim>\<open>undefined\<close> and 0 are falsy.\<close>

fun orElse :: "real option \<Rightarrow> real \<Rightarrow> real" where
  "orElse None d = d"
| "orElse (Some v) d = (if v = 0 then d else v)"

text \<open>One slot of \<^verbatim>\<open>state.rubbleData\<close>.\<close>

record rubble =
  isActive :: bool
  r_position :: vec3
  r_rotation :: vec3
  r_scale :: vec3
  r_velocity :: vec3
  r_angularVelocity :: vec3

text \<open>
  The \<^verbatim>\<open>state\<close> object. \<^verbatim>\<open>activePowerUps.slowMo.active\<close> is the field
  \<open>slowMo_active\<close>, and so on for the three effects. \<open>continueUsed\<close> and
  \<open>continuePending\<close> are the two properties that only \<^verbatim>\<open>startGame\<close> and
  \<^verbatim>\<open>gameOver\<close> write (absent, hence falsy, before).
\<close>

record state =
  status :: status
  score :: int
  bestScore :: int
  bestStreak :: int
  combo :: int
  maxSessionCombo :: int
  difficulty :: difficulty
  powerUps :: "powerUp option list"
  slowMo_active :: bool
  slowMo_duration :: real
  safetyNet_active :: bool
  safetyNet_uses :: int
  superSize_active :: bool
  superSize_count :: int
  lastComboMilestone :: int
  continuesUsed :: int
  continueUsed :: bool
  continuePending :: bool
  axis :: axis
  direction :: real
  speed :: real
  stack :: "block list"
  activeBlock :: "block option"
  lastSpawnTime :: real
  flash :: real
  shakeTime :: real
  shakeDuration :: real
  shakeAmp :: real
  rubbleData :: "rubble list"
  rubbleFree :: "nat list"
  rubbleActive :: "nat list"

record gfx =
  scene :: bool
  rubbleInstances :: bool

text \<open>The values of \<^verbatim>\<open>Math.random()\<close> that one call of \<^verbatim>\<open>placeBlock\<close> can draw.\<close>

record randoms =
  rndAward :: real
  rndAngX :: real
  rndAngY :: real
  rndAngZ :: real
  rndOffset :: real

subsection \<open>config.js\<close>

record diffConfig =
  initial :: real
  inc :: real
  maxSpeed :: real
  mercy :: nat
  threshold :: real

fun DIFFICULTIES :: "difficulty \<Rightarrow> diffConfig" where
  "DIFFICULTIES easy =
     \<lparr>initial = 0.12, inc = 0.003, maxSpeed = 0.35, mercy = 8, threshold = 0.45\<rparr>"
| "DIFFICULTIES medium =
     \<lparr>initial = 0.18, inc = 0.006, maxSpeed = 0.50, mercy = 5, threshold = 0.35\<rparr>"
| "DIFFICULTIES hard =
     \<lparr>initial = 0.25, inc = 0.012, maxSpeed = 0.70, mercy = 2, threshold = 0.20\<rparr>"

definition BLOCK_HEIGHT :: real where
  "BLOCK_HEIGHT = 1"

definition INITIAL_SIZE :: real where
  "INITIAL_SIZE = 4"

definition MAX_RUBBLE :: nat where
  "MAX_RUBBLE = 80"

subsection \<open>state.js\<close>

text \<open>The object literal \<^verbatim>\<open>state\<close>.\<close>

definition initialState :: state where
  "initialState =
     \<lparr>status = LOADING, score = 0, bestScore = 0, bestStreak = 0, combo = 0,
      maxSessionCombo = 0, difficulty = medium, powerUps = [None, None, None],
      slowMo_active = False, slowMo_duration = 0,
      safetyNet_active = False, safetyNet_uses = 0,
      superSize_active = False, superSize_count = 0,
      lastComboMilestone = 0, continuesUsed = 0,
      continueUsed = False, continuePending = False,
      axis = AxisX, direction = 1, speed = 0.18, stack = [], activeBlock = None,
      lastSpawnTime = 0, flash = 0, shakeTime = 0, shakeDuration = 0, shakeAmp = 0,
      rubbleData = [], rubbleFree = [], rubbleActive = []\<rparr>"

definition resetGameState :: "state \<Rightarrow> state" where
  "resetGameState s =
     s\<lparr>score := 0, combo := 0, maxSessionCombo := 0, stack := [], activeBlock := None,
       rubbleActive := [], powerUps := [None, None, None],
       slowMo_active := False, slowMo_duration := 0,
       safetyNet_active := False, safetyNet_uses := 0,
       superSize_active := False, superSize_count := 0,
       lastComboMilestone := 0, continuesUsed := 0, flash := 0, shakeTime := 0\<rparr>"

subsection \<open>graphics: the rubble part of initEngine, createFoundation\<close>

definition freshRubble :: rubble where
  "freshRubble =
     \<lparr>isActive = False,
      r_position = \<lparr>vec_x = 0, vec_y = - 500, vec_z = 0\<rparr>,
      r_rotation = \<lparr>vec_x = 0, vec_y = 0, vec_z = 0\<rparr>,
      r_scale = \<lparr>vec_x = 1, vec_y = 1, vec_z = 1\<rparr>,
      r_velocity = \<lparr>vec_x = 0, vec_y = 0, vec_z = 0\<rparr>,
      r_angularVelocity = \<lparr>vec_x = 0, vec_y = 0, vec_z = 0\<rparr>\<rparr>"

text \<open>
  \<^verbatim>\<open>createFoundation\<close> calls \<^verbatim>\<open>scene.add\<close>, which throws when \<^verbatim>\<open>scene\<close> is
  \<^verbatim>\<open>null\<close>.
\<close>

definition createFoundation :: "gfx \<Rightarrow> state \<Rightarrow> error + state" where
  "createFoundation g s =
     (if \<not> scene g then Inl TypeError
      else Inr (s\<lparr>stack := stack s @
        [\<lparr>position = \<lparr>vec_x = 0, vec_y = BLOCK_HEIGHT / 2, vec_z = 0\<rparr>,
          width = INITIAL_SIZE, depth = INITIAL_SIZE,
          baseWidth = Some INITIAL_SIZE, baseDepth = Some INITIAL_SIZE\<rparr>]\<rparr>))"

text \<open>
  \<^verbatim>\<open>initEngine\<close> creates the scene and the instanced mesh, empties both index lists,
  pushes \<^verbatim>\<open>0 .. MAX_RUBBLE - 1\<close> on the free list, overwrites the first
  \<^verbatim>\<open>MAX_RUBBLE\<close> slots and creates the foundation.
\<close>

definition engineReady :: gfx where
  "engineReady = \<lparr>scene = True, rubbleInstances = True\<rparr>"

definition initEngine :: "state \<Rightarrow> error + state" where
  "initEngine s =
     createFoundation engineReady
       (s\<lparr>rubbleFree := [0..<MAX_RUBBLE], rubbleActive := [],
          rubbleData := replicate MAX_RUBBLE freshRubble @ drop MAX_RUBBLE (rubbleData s)\<rparr>)"

subsection \<open>powerups.js\<close>

text \<open>\<^verbatim>\<open>state.powerUps.findIndex(slot => slot === null)\<close>, \<open>None\<close> for \<^verbatim>\<open>-1\<close>.\<close>

fun findIndexNull :: "powerUp option list \<Rightarrow> nat option" where
  "findIndexNull [] = None"
| "findIndexNull (p # ps) = (if p = None then Some 0 else map_option Suc (findIndexNull ps))"

definition powerUpTypes :: "powerUp list" where
  "powerUpTypes = [slowMo, safetyNet, superSize, resetSize]"

text \<open>
  \<^verbatim>\<open>powerUpTypes[Math.floor(Math.random() * powerUpTypes.length)]\<close>; \<open>r\<close> is the
  random number. An index outside the array cannot arise for \<open>0 \<le> r < 1\<close>.
\<close>

definition randomType :: "real \<Rightarrow> powerUp option" where
  "randomType r =
     (let i = \<lfloor>r * real (length powerUpTypes)\<rfloor>
      in if 0 \<le> i \<and> nat i < length powerUpTypes then Some (powerUpTypes ! nat i) else None)"

definition awardPowerUp :: "real \<Rightarrow> state \<Rightarrow> state" where
  "awardPowerUp r s =
     (case findIndexNull (powerUps s) of
        None \<Rightarrow> s
      | Some emptySlot \<Rightarrow> s\<lparr>powerUps := (powerUps s)[emptySlot := randomType r]\<rparr>)"

definition updatePowerUpTimers :: "real \<Rightarrow> state \<Rightarrow> state" where
  "updatePowerUpTimers dt s =
     (if slowMo_active s \<and> slowMo_duration s > 0 then
        (let s1 = s\<lparr>slowMo_duration := slowMo_duration s - dt\<rparr>
         in if slowMo_duration s1 \<le> 0
            then s1\<lparr>slowMo_active := False, slowMo_duration := 0\<rparr> else s1)
      else s)"

text \<open>\<^verbatim>\<open>animate\<close> repeats the test of \<^verbatim>\<open>getSpeedMultiplier\<close> in place.\<close>

definition getSpeedMultiplier :: "state \<Rightarrow> real" where
  "getSpeedMultiplier s = (if slowMo_active s \<and> slowMo_duration s > 0 then 0.5 else 1.0)"

text \<open>
  The block that \<^verbatim>\<open>placeBlock\<close> repeats in both of its placement branches (and
  that \<^verbatim>\<open>decrementSuperSize\<close> holds once more).
\<close>

definition decrementSuperSize :: "state \<Rightarrow> state" where
  "decrementSuperSize s =
     (if superSize_active s \<and> superSize_count s > 0 then
        (let s1 = s\<lparr>superSize_count := superSize_count s - 1\<rparr>
         in if superSize_count s1 = 0 then s1\<lparr>superSize_active := False\<rparr> else s1)
      else s)"

text \<open>The \<^verbatim>\<open>resetSize\<close> case of \<^verbatim>\<open>activatePowerUp\<close>.\<close>

definition resetSizeEffect :: "state \<Rightarrow> state" where
  "resetSizeEffect s =
     (if stack s = [] then s
      else
        (let lastBlock = last (stack s);
             lastBlock' = lastBlock\<lparr>width := INITIAL_SIZE, depth := INITIAL_SIZE,
               position := (position lastBlock)\<lparr>vec_x := 0, vec_z := 0\<rparr>,
               baseWidth := Some INITIAL_SIZE, baseDepth := Some INITIAL_SIZE\<rparr>;
             s1 = s\<lparr>stack := butlast (stack s) @ [lastBlock']\<rparr>
         in case activeBlock s1 of
              None \<Rightarrow> s1
            | Some a \<Rightarrow>
                s1\<lparr>activeBlock := Some (a\<lparr>width := INITIAL_SIZE, depth := INITIAL_SIZE,
                  baseWidth := Some INITIAL_SIZE, baseDepth := Some INITIAL_SIZE,
                  position := setAxis (otherAxis (axis s1)) 0 (position a)\<rparr>)\<rparr>))"

text \<open>
  \<^verbatim>\<open>state.powerUps[slotIndex]\<close> beyond the array is \<^verbatim>\<open>undefined\<close>, which is an
  empty slot for the test \<^verbatim>\<open>!powerUpType\<close>.
\<close>

definition activatePowerUp :: "state \<Rightarrow> nat \<Rightarrow> state" where
  "activatePowerUp s slotIndex =
     (if status s \<noteq> PLAYING then s
      else if slotIndex \<ge> length (powerUps s) then s
      else case powerUps s ! slotIndex of
             None \<Rightarrow> s
           | Some powerUpType \<Rightarrow>
               (let s1 = (case powerUpType of
                            slowMo \<Rightarrow> s\<lparr>slowMo_active := True, slowMo_duration := 10\<rparr>
                          | safetyNet \<Rightarrow> s\<lparr>safetyNet_active := True, safetyNet_uses := 1\<rparr>
                          | superSize \<Rightarrow> s\<lparr>superSize_active := True, superSize_count := 2\<rparr>
                          | resetSize \<Rightarrow> resetSizeEffect s)
                in s1\<lparr>powerUps := (powerUps s1)[slotIndex := None]\<rparr>))"

subsection \<open>effects.js: the state written by the feedback triggers\<close>

definition triggerShake :: "state \<Rightarrow> real \<Rightarrow> real \<Rightarrow> state" where
  "triggerShake s amp duration =
     s\<lparr>shakeAmp := max (shakeAmp s) amp,
       shakeDuration := max (shakeDuration s) duration,
       shakeTime := max (shakeTime s) duration\<rparr>"

definition triggerCrashFeedback :: "state \<Rightarrow> state" where
  "triggerCrashFeedback s =
     (let s1 = triggerShake s 0.9 0.35 in s1\<lparr>flash := max (flash s1) 0.65\<rparr>)"

definition triggerPerfectFeedback :: "state \<Rightarrow> state" where
  "triggerPerfectFeedback s = triggerShake s (0.18 * 0.5) 0.08"

subsection \<open>game.js\<close>

text \<open>
  \<^verbatim>\<open>spawnNewBlock\<close>: \<open>now\<close> is \<^verbatim>\<open>performance.now()\<close>, \<open>r\<close> the random number.
  With an empty stack \<^verbatim>\<open>prev\<close> is \<^verbatim>\<open>undefined\<close> and \<^verbatim>\<open>prev.userData\<close> throws;
  \<^verbatim>\<open>scene.add\<close> throws without a scene. A new mesh is at the origin.
\<close>

definition spawnNewBlock :: "gfx \<Rightarrow> real \<Rightarrow> real \<Rightarrow> state \<Rightarrow> error + state" where
  "spawnNewBlock g now r s =
     (if stack s = [] then Inl TypeError
      else if \<not> scene g then Inl TypeError
      else
        (let prev = last (stack s);
             ax = otherAxis (axis s);
             bw = orElse (baseWidth prev) (width prev);
             bd = orElse (baseDepth prev) (depth prev);
             super = (superSize_active s \<and> superSize_count s > 0);
             actualWidth = (if super then bw * 1.3 else bw);
             actualDepth = (if super then bd * 1.3 else bd);
             offset = (if r > 0.5 then 12 else - 12 :: real);
             pos0 = \<lparr>vec_x = 0,
                     vec_y = real (length (stack s)) * BLOCK_HEIGHT + BLOCK_HEIGHT / 2,
                     vec_z = 0\<rparr>;
             pos1 = setAxis ax offset pos0;
             pos2 = setAxis (otherAxis ax) (getAxis (otherAxis ax) (position prev)) pos1;
             mesh = \<lparr>position = pos2, width = actualWidth, depth = actualDepth,
                     baseWidth = Some bw, baseDepth = Some bd\<rparr>
         in Inr (s\<lparr>axis := ax, direction := (if offset > 0 then - 1 else 1),
                   activeBlock := Some mesh, lastSpawnTime := now\<rparr>)))"

text \<open>The extent of a box along the motion axis, and across it.\<close>

definition sizeOn :: "axis \<Rightarrow> block \<Rightarrow> real" where
  "sizeOn ax b = (if ax = AxisX then width b else depth b)"

definition otherOn :: "axis \<Rightarrow> block \<Rightarrow> real" where
  "otherOn ax b = (if ax = AxisX then depth b else width b)"

text \<open>
  \<^verbatim>\<open>spawnRubble\<close>: with an empty free list \<^verbatim>\<open>idx\<close> is \<^verbatim>\<open>-1\<close> and the function
  returns. \<^verbatim>\<open>state.rubbleData[idx]\<close> is \<^verbatim>\<open>undefined\<close> for an index beyond the array;
  \<^verbatim>\<open>rubbleInstances.setColorAt\<close> throws when the instanced mesh is \<^verbatim>\<open>null\<close>.
\<close>

definition spawnRubble ::
  "gfx \<Rightarrow> randoms \<Rightarrow> state \<Rightarrow> block \<Rightarrow> block \<Rightarrow> axis \<Rightarrow> real \<Rightarrow> real \<Rightarrow> error + state" where
  "spawnRubble g rnd s active prev ax delta overlap =
     (let sz = sizeOn ax active;
          other = otherOn ax active;
          rSize = sz - overlap
      in if rubbleFree s = [] then Inr s
         else
           (let idx = last (rubbleFree s);
                rPos = setAxis ax
                  (getAxis ax (position prev) + (sz / 2 + rSize / 2) * sgn delta)
                  (position active);
                rScale = (if ax = AxisX
                  then \<lparr>vec_x = rSize, vec_y = BLOCK_HEIGHT, vec_z = other\<rparr>
                  else \<lparr>vec_x = other, vec_y = BLOCK_HEIGHT, vec_z = rSize\<rparr>)
            in if idx \<ge> length (rubbleData s) then Inl TypeError
               else if \<not> rubbleInstances g then Inl TypeError
               else Inr (s\<lparr>rubbleFree := butlast (rubbleFree s),
                     rubbleActive := rubbleActive s @ [idx],
                     rubbleData := (rubbleData s)[idx :=
                       \<lparr>isActive = True, r_position = rPos,
                        r_rotation = \<lparr>vec_x = 0, vec_y = 0, vec_z = 0\<rparr>,
                        r_scale = rScale,
                        r_velocity = \<lparr>vec_x = 0, vec_y = - 10, vec_z = 0\<rparr>,
                        r_angularVelocity =
                          \<lparr>vec_x = rndAngX rnd * 8 - 4, vec_y = rndAngY rnd * 4 - 2,
                           vec_z = rndAngZ rnd * 8 - 4\<rparr>\<rparr>]\<rparr>)))"

definition gameOver :: "state \<Rightarrow> state" where
  "gameOver s =
     (let s1 = s\<lparr>status := GAMEOVER, continuePending := False\<rparr>;
          s2 = (if score s1 > bestScore s1 then s1\<lparr>bestScore := score s1\<rparr> else s1);
          s3 = (if maxSessionCombo s2 > bestStreak s2
                then s2\<lparr>bestStreak := maxSessionCombo s2\<rparr> else s2)
      in triggerCrashFeedback s3)"

text \<open>
  The grace period test of \<^verbatim>\<open>placeBlock\<close>:
  \<^verbatim>\<open>state.lastSpawnTime && performance.now() - state.lastSpawnTime < 2000\<close>.
  A timestamp of 0 is falsy, and then the test does not hold.
\<close>

definition inGrace :: "real \<Rightarrow> state \<Rightarrow> bool" where
  "inGrace now s \<longleftrightarrow> lastSpawnTime s \<noteq> 0 \<and> now - lastSpawnTime s < 2000"

definition mercyThreshold :: "state \<Rightarrow> real" where
  "mercyThreshold s =
     (let diffConfig = DIFFICULTIES (difficulty s)
      in if length (stack s) \<le> mercy diffConfig then threshold diffConfig else 0.15)"

text \<open>\<^verbatim>\<open>delta\<close> after the mercy rounding, and \<^verbatim>\<open>overlap\<close>.\<close>

definition placeDelta :: "state \<Rightarrow> block \<Rightarrow> block \<Rightarrow> real" where
  "placeDelta s active prev =
     (let delta = getAxis (axis s) (position active) - getAxis (axis s) (position prev)
      in if \<bar>delta\<bar> < mercyThreshold s then 0 else delta)"

definition placeOverlap :: "state \<Rightarrow> block \<Rightarrow> block \<Rightarrow> real" where
  "placeOverlap s active prev = sizeOn (axis s) active - \<bar>placeDelta s active prev\<bar>"

text \<open>The safety net branch of the miss: lines 306 to 329 of \<^verbatim>\<open>placeBlock\<close>.\<close>

definition safetyNetMiss :: "gfx \<Rightarrow> real \<Rightarrow> randoms \<Rightarrow> state \<Rightarrow> error + state" where
  "safetyNetMiss g now rnd s =
     (let s1 = s\<lparr>safetyNet_uses := safetyNet_uses s - 1\<rparr>;
          s2 = (if safetyNet_uses s1 = 0 then s1\<lparr>safetyNet_active := False\<rparr> else s1);
          s3 = s2\<lparr>combo := 0, flash := 0.3\<rparr>
      in if \<not> scene g then Inl TypeError
         else spawnNewBlock g now (rndOffset rnd) (s3\<lparr>activeBlock := None\<rparr>))"

text \<open>
  The perfect placement: the state after it, and the active mesh with its coordinate
  snapped.
\<close>

definition placePerfect :: "randoms \<Rightarrow> state \<Rightarrow> block \<Rightarrow> block \<Rightarrow> state \<times> block" where
  "placePerfect rnd s active prev =
     (let ax = axis s;
          active' = active\<lparr>position := setAxis ax (getAxis ax (position prev)) (position active)\<rparr>;
          s1 = s\<lparr>combo := combo s + 1\<rparr>;
          s2 = (if combo s1 > maxSessionCombo s1
                then s1\<lparr>maxSessionCombo := combo s1\<rparr> else s1);
          s3 = triggerPerfectFeedback (s2\<lparr>flash := 0.5\<rparr>);
          s4 = (if combo s3 \<ge> 5 \<and> combo s3 mod 5 = 0 \<and> combo s3 > lastComboMilestone s3
                then awardPowerUp (rndAward rnd) (s3\<lparr>lastComboMilestone := combo s3\<rparr>)
                else s3)
      in (decrementSuperSize s4, active'))"

text \<open>The cut: the state after it, and the active mesh trimmed and re-centred.\<close>

definition placeCut ::
  "gfx \<Rightarrow> randoms \<Rightarrow> state \<Rightarrow> block \<Rightarrow> block \<Rightarrow> real \<Rightarrow> real \<Rightarrow> error + state \<times> block" where
  "placeCut g rnd s active prev delta overlap =
     (let ax = axis s;
          other = otherOn ax active
      in case spawnRubble g rnd (s\<lparr>combo := 0\<rparr>) active prev ax delta overlap of
           Inl e \<Rightarrow> Inl e
         | Inr s1 \<Rightarrow>
             (let active' = active\<lparr>
                    width := (if ax = AxisX then overlap else other),
                    depth := (if ax = AxisX then other else overlap),
                    position := setAxis ax (getAxis ax (position prev) + delta / 2)
                                  (position active),
                    baseWidth := Some (if ax = AxisX then overlap else other),
                    baseDepth := Some (if ax = AxisX then other else overlap)\<rparr>
              in Inr (decrementSuperSize s1, active')))"

text \<open>The common end of a placement: lines 392 to 397 of \<^verbatim>\<open>placeBlock\<close>.\<close>

definition finishPlacement ::
  "gfx \<Rightarrow> real \<Rightarrow> randoms \<Rightarrow> state \<Rightarrow> block \<Rightarrow> error + state" where
  "finishPlacement g now rnd s active =
     (let diffConfig = DIFFICULTIES (difficulty s)
      in spawnNewBlock g now (rndOffset rnd)
           (s\<lparr>stack := stack s @ [active], activeBlock := None, score := score s + 1,
              speed := min (maxSpeed diffConfig) (speed s + inc diffConfig)\<rparr>))"

definition placeBlock :: "gfx \<Rightarrow> real \<Rightarrow> randoms \<Rightarrow> state \<Rightarrow> error + state" where
  "placeBlock g now rnd s =
     (case activeBlock s of
        None \<Rightarrow> Inr s
      | Some active \<Rightarrow>
          if inGrace now s then Inr s
          else if stack s = [] then Inl TypeError
          else
            (let prev = last (stack s);
                 delta = placeDelta s active prev;
                 overlap = placeOverlap s active prev
             in if overlap \<le> 0.05 then
                  (if safetyNet_active s \<and> safetyNet_uses s > 0
                   then safetyNetMiss g now rnd s
                   else Inr (gameOver s))
                else if delta = 0 then
                  (case placePerfect rnd s active prev of
                     (s1, active') \<Rightarrow> finishPlacement g now rnd s1 active')
                else
                  (case placeCut g rnd s active prev delta overlap of
                     Inl e \<Rightarrow> Inl e
                   | Inr (s1, active') \<Rightarrow> finishPlacement g now rnd s1 active')))"

definition continueGame :: "state \<Rightarrow> state" where
  "continueGame s =
     s\<lparr>continuesUsed := continuesUsed s + 1, status := PLAYING,
       safetyNet_active := True, safetyNet_uses := 1,
       slowMo_active := True, slowMo_duration := 5\<rparr>"

text \<open>
  The loop of \<^verbatim>\<open>cleanup\<close> over \<^verbatim>\<open>i = 0 .. MAX_RUBBLE - 1\<close>: one round, and the
  rounds for a list of indices. \<^verbatim>\<open>state.rubbleData[i].isActive = false\<close> throws when
  the array has no slot \<open>i\<close>.
\<close>

definition resetSlot :: "nat \<Rightarrow> state \<Rightarrow> error + state" where
  "resetSlot i s =
     (if i < length (rubbleData s)
      then Inr (s\<lparr>rubbleData := (rubbleData s)[i := (rubbleData s ! i)\<lparr>isActive := False\<rparr>],
                 rubbleFree := rubbleFree s @ [i]\<rparr>)
      else Inl TypeError)"

fun forIndices :: "(nat \<Rightarrow> state \<Rightarrow> error + state) \<Rightarrow> nat list \<Rightarrow> state \<Rightarrow> error + state" where
  "forIndices body [] s = Inr s"
| "forIndices body (i # is) s =
     (case body i s of Inl e \<Rightarrow> Inl e | Inr s' \<Rightarrow> forIndices body is s')"

definition cleanup :: "gfx \<Rightarrow> state \<Rightarrow> error + state" where
  "cleanup g s =
     (if \<not> scene g then Inr (s\<lparr>stack := [], activeBlock := None\<rparr>)
      else
        (let s1 = s\<lparr>stack := [], activeBlock := None\<rparr>
         in if rubbleInstances g \<and> length (rubbleData s1) \<noteq> 0
            then forIndices resetSlot [0..<MAX_RUBBLE] (s1\<lparr>rubbleFree := [], rubbleActive := []\<rparr>)
            else Inr s1))"

text \<open>
  \<^verbatim>\<open>startGame\<close>. The name it resets is \<^verbatim>\<open>continueUsed\<close>; \<^verbatim>\<open>continuesUsed\<close> is not
  written. The call of \<^verbatim>\<open>spawnNewBlock\<close> is inside \<^verbatim>\<open>try\<close>: when it throws, the
  state stays as the call left it, with the axis already flipped.
\<close>

definition startGame :: "gfx \<Rightarrow> real \<Rightarrow> real \<Rightarrow> state \<Rightarrow> error + state" where
  "startGame g now r s =
     (case cleanup g (s\<lparr>continueUsed := False, continuePending := False\<rparr>) of
        Inl e \<Rightarrow> Inl e
      | Inr s1 \<Rightarrow>
          (let d = DIFFICULTIES (difficulty s1);
               s2 = s1\<lparr>status := PLAYING, score := 0, combo := 0, maxSessionCombo := 0,
                      speed := initial d, axis := AxisX,
                      powerUps := [None, None, None],
                      slowMo_active := False, slowMo_duration := 0,
                      safetyNet_active := False, safetyNet_uses := 0,
                      superSize_active := False, superSize_count := 0,
                      lastComboMilestone := 0\<rparr>
           in case createFoundation g s2 of
                Inl e \<Rightarrow> Inl e
              | Inr s3 \<Rightarrow>
                  (case spawnNewBlock g now r s3 of
                     Inl e \<Rightarrow> Inr (s3\<lparr>axis := otherAxis (axis s3)\<rparr>)
                   | Inr s4 \<Rightarrow> Inr s4)))"

definition backToMenu :: "gfx \<Rightarrow> state \<Rightarrow> error + state" where
  "backToMenu g s =
     (if status s = GAMEOVER then
        (case cleanup g s of
           Inl e \<Rightarrow> Inl e
         | Inr s1 \<Rightarrow> Inr (s1\<lparr>stack := [], activeBlock := None, status := START\<rparr>))
      else Inr (s\<lparr>status := START\<rparr>))"

definition resumeGame :: "state \<Rightarrow> state" where
  "resumeGame s = (if status s = GAMEOVER then s else s\<lparr>status := PLAYING\<rparr>)"

definition pauseGame :: "state \<Rightarrow> state" where
  "pauseGame s = (if status s \<noteq> PLAYING then s else s\<lparr>status := PAUSED\<rparr>)"

subsection \<open>main-vr.js: the simulation blocks of animate\<close>

text \<open>
  The movement of the active block (the block under
  \<^verbatim>\<open>state.status === 'PLAYING' && state.activeBlock\<close>); \<open>dt\<close> is the frame time in
  seconds.
\<close>

definition moveActiveBlock :: "real \<Rightarrow> state \<Rightarrow> state" where
  "moveActiveBlock dt s =
     (case activeBlock s of
        None \<Rightarrow> s
      | Some b \<Rightarrow>
          if status s \<noteq> PLAYING then s
          else
            (let s1 = updatePowerUpTimers dt s;
                 speedMultiplier =
                   (if slowMo_active s1 \<and> slowMo_duration s1 > 0 then 0.5 else 1 :: real);
                 p = getAxis (axis s1) (position b)
                       + direction s1 * speed s1 * speedMultiplier * (dt * 60)
             in if \<bar>p\<bar> > 13
                then s1\<lparr>direction := direction s1 * (- 1),
                        activeBlock := Some (b\<lparr>position :=
                          setAxis (axis s1) (13 * sgn p) (position b)\<rparr>)\<rparr>
                else s1\<lparr>activeBlock := Some (b\<lparr>position :=
                          setAxis (axis s1) p (position b)\<rparr>)\<rparr>))"

text \<open>
  The coordinate on the motion axis that one frame of \<open>dt\<close> seconds carries the active
  block \<open>b\<close> to, before the test against 13.
\<close>

definition carriedTo :: "real \<Rightarrow> state \<Rightarrow> block \<Rightarrow> real" where
  "carriedTo dt s b =
     getAxis (axis s) (position b)
       + direction s * speed s * getSpeedMultiplier (updatePowerUpTimers dt s) * (dt * 60)"

text \<open>
  \<^verbatim>\<open>const last = state.rubbleActive.pop();
  if (a < state.rubbleActive.length) state.rubbleActive[a] = last;\<close>
\<close>

definition swapRemove :: "nat \<Rightarrow> nat list \<Rightarrow> nat list" where
  "swapRemove a xs =
     (let ys = butlast xs in if a < length ys then ys[a := last xs] else ys)"

text \<open>
  One round of the rubble loop, for the position \<open>a\<close> of the active list. A position
  or a slot index beyond its array yields \<^verbatim>\<open>undefined\<close>, and \<^verbatim>\<open>r.isActive\<close> throws.
\<close>

definition rubbleStep :: "gfx \<Rightarrow> real \<Rightarrow> nat \<Rightarrow> state \<Rightarrow> error + state" where
  "rubbleStep g dt a s =
     (if a \<ge> length (rubbleActive s) then Inl TypeError
      else
        (let i = rubbleActive s ! a
         in if i \<ge> length (rubbleData s) then Inl TypeError
            else
              (let r = rubbleData s ! i
               in if \<not> isActive r
                  then Inr (s\<lparr>rubbleActive := swapRemove a (rubbleActive s)\<rparr>)
                  else
                    (let r1 = r\<lparr>r_position := (r_position r)\<lparr>vec_y :=
                                 vec_y (r_position r) + vec_y (r_velocity r) * (dt * 5)\<rparr>\<rparr>;
                         r2 = r1\<lparr>r_velocity := (r_velocity r1)\<lparr>vec_y :=
                                 vec_y (r_velocity r1) - 25 * dt\<rparr>\<rparr>;
                         r3 = r2\<lparr>r_rotation :=
                                 \<lparr>vec_x = vec_x (r_rotation r2) + vec_x (r_angularVelocity r2) * dt,
                                  vec_y = vec_y (r_rotation r2) + vec_y (r_angularVelocity r2) * dt,
                                  vec_z = vec_z (r_rotation r2) + vec_z (r_angularVelocity r2) * dt\<rparr>\<rparr>
                     in if \<not> rubbleInstances g then Inl TypeError
                        else if vec_y (r_position r3) < - 120
                        then Inr (s\<lparr>rubbleData := (rubbleData s)[i := r3\<lparr>isActive := False\<rparr>],
                                    rubbleFree := rubbleFree s @ [i],
                                    rubbleActive := swapRemove a (rubbleActive s)\<rparr>)
                        else Inr (s\<lparr>rubbleData := (rubbleData s)[i := r3]\<rparr>)))))"

text \<open>
  \<^verbatim>\<open>for (let a = state.rubbleActive.length - 1; a >= 0; a--)\<close>: \<open>rubbleLoop g dt n\<close>
  runs the rounds for \<open>a = n - 1\<close> down to \<open>0\<close>.
\<close>

fun rubbleLoop :: "gfx \<Rightarrow> real \<Rightarrow> nat \<Rightarrow> state \<Rightarrow> error + state" where
  "rubbleLoop g dt 0 s = Inr s"
| "rubbleLoop g dt (Suc a) s =
     (case rubbleStep g dt a s of Inl e \<Rightarrow> Inl e | Inr s' \<Rightarrow> rubbleLoop g dt a s')"

definition updateRubble :: "gfx \<Rightarrow> real \<Rightarrow> state \<Rightarrow> error + state" where
  "updateRubble g dt s = rubbleLoop g dt (length (rubbleActive s)) s"

text \<open>The two blocks of one frame, in the order of \<^verbatim>\<open>animate\<close>.\<close>

definition animate :: "gfx \<Rightarrow> real \<Rightarrow> state \<Rightarrow> error + state" where
  "animate g dt s = updateRubble g dt (moveActiveBlock dt s)"

text \<open>Any number of frames of the movement alone.\<close>

fun moveFrames :: "real list \<Rightarrow> state \<Rightarrow> state" where
  "moveFrames [] s = s"
| "moveFrames (dt # dts) s = moveFrames dts (moveActiveBlock dt s)"

subsection \<open>ui.js and the handlers of main-vr.js: which action is offered when\<close>

text \<open>\<^verbatim>\<open>renderGameOver\<close>: \<^verbatim>\<open>const canContinue = state.continuesUsed < 1\<close>.\<close>

definition canContinue :: "state \<Rightarrow> bool" where
  "canContinue s \<longleftrightarrow> continuesUsed s < 1"

text \<open>
  The states the running application goes through. \<^verbatim>\<open>init\<close> loads the best scores
  and the difficulty, runs \<^verbatim>\<open>initEngine\<close> and shows the start screen. After that:
  \<^item> the start screen and the game over screen start a game (\<^verbatim>\<open>gameStartNew\<close>,
    \<^verbatim>\<open>gameRestart\<close>); the start screen sets the difficulty;
  \<^item> \<^verbatim>\<open>handleInput\<close> and \<^verbatim>\<open>handleVRInput\<close> call \<^verbatim>\<open>placeBlock\<close> in status PLAYING;
  \<^item> the game over screen offers the continue button while \<open>canContinue\<close> holds;
  \<^item> the pause screen, and the start screen when \<^verbatim>\<open>state.stack.length > 1\<close>, offer
    resume; the HUD offers pause; HUD, pause screen and game over screen offer the menu;
  \<^item> the inventory is shown in status PLAYING;
  \<^item> \<^verbatim>\<open>animate\<close> runs every frame, with
    \<^verbatim>\<open>dt = Math.min((time - state.lastTime) / 1000, 0.04)\<close>.
\<close>

inductive reachable :: "state \<Rightarrow> bool" where
  boot: "initEngine (initialState\<lparr>bestScore := bs, bestStreak := bst, difficulty := d\<rparr>) = Inr s
     \<Longrightarrow> reachable (s\<lparr>status := START\<rparr>)"
| start: "reachable s \<Longrightarrow> status s = START \<or> status s = GAMEOVER
     \<Longrightarrow> startGame engineReady now r s = Inr s' \<Longrightarrow> reachable s'"
| setDifficulty: "reachable s \<Longrightarrow> status s = START \<Longrightarrow> reachable (s\<lparr>difficulty := d\<rparr>)"
| place: "reachable s \<Longrightarrow> status s = PLAYING
     \<Longrightarrow> placeBlock engineReady now rnd s = Inr s' \<Longrightarrow> reachable s'"
| continue: "reachable s \<Longrightarrow> status s = GAMEOVER \<Longrightarrow> canContinue s
     \<Longrightarrow> reachable (continueGame s)"
| resume: "reachable s \<Longrightarrow> status s = PAUSED \<or> (status s = START \<and> length (stack s) > 1)
     \<Longrightarrow> reachable (resumeGame s)"
| pause: "reachable s \<Longrightarrow> status s = PLAYING \<Longrightarrow> reachable (pauseGame s)"
| menu: "reachable s \<Longrightarrow> status s = PLAYING \<or> status s = PAUSED \<or> status s = GAMEOVER
     \<Longrightarrow> backToMenu engineReady s = Inr s' \<Longrightarrow> reachable s'"
| activate: "reachable s \<Longrightarrow> status s = PLAYING \<Longrightarrow> reachable (activatePowerUp s slotIndex)"
| frame: "reachable s \<Longrightarrow> dt \<le> 0.04 \<Longrightarrow> animate engineReady dt s = Inr s'
     \<Longrightarrow> reachable s'"

subsection \<open>The rubble pool invariant\<close>

text \<open>
  Every index below \<^verbatim>\<open>MAX_RUBBLE\<close> is in exactly one of the two lists, once; the
  array has \<^verbatim>\<open>MAX_RUBBLE\<close> slots; a slot is flagged active exactly when its index
  is on the active list.
\<close>

definition poolInv :: "state \<Rightarrow> bool" where
  "poolInv s \<longleftrightarrow>
     length (rubbleData s) = MAX_RUBBLE
     \<and> distinct (rubbleFree s @ rubbleActive s)
     \<and> set (rubbleFree s @ rubbleActive s) = {0..<MAX_RUBBLE}
     \<and> (\<forall>i < MAX_RUBBLE. isActive (rubbleData s ! i) \<longleftrightarrow> i \<in> set (rubbleActive s))"

subsection \<open>Example states\<close>

text \<open>
  The state after \<^verbatim>\<open>init\<close> (start screen, foundation on the stack, pool filled),
  and the state of a game that \<^verbatim>\<open>startGame\<close> has just started at time 5000 with
  the first block spawned at \<open>z = 12\<close>.
\<close>

definition foundationBlock :: block where
  "foundationBlock =
     \<lparr>position = \<lparr>vec_x = 0, vec_y = 0.5, vec_z = 0\<rparr>, width = 4, depth = 4,
      baseWidth = Some 4, baseDepth = Some 4\<rparr>"

definition spawnedBlock :: block where
  "spawnedBlock =
     \<lparr>position = \<lparr>vec_x = 0, vec_y = 1.5, vec_z = 12\<rparr>, width = 4, depth = 4,
      baseWidth = Some 4, baseDepth = Some 4\<rparr>"

definition bootState :: state where
  "bootState =
     initialState\<lparr>status := START, stack := [foundationBlock],
       rubbleData := replicate 80 freshRubble, rubbleFree := [0..<80]\<rparr>"

definition startedState :: state where
  "startedState =
     bootState\<lparr>status := PLAYING, axis := AxisZ, direction := - 1,
       activeBlock := Some spawnedBlock, lastSpawnTime := 5000\<rparr>"

definition someRandoms :: randoms where
  "someRandoms =
     \<lparr>rndAward = 0.3, rndAngX = 0.5, rndAngY = 0.5, rndAngZ = 0.5, rndOffset = 0.7\<rparr>"

text \<open>The started game with a safety net in effect.\<close>

definition netState :: state where
  "netState = startedState\<lparr>safetyNet_active := True, safetyNet_uses := 1\<rparr>"

text \<open>
  The started game with the block moved to \<open>z = 1\<close>, and the state that dropping it
  there at time 9000 gives: the block is cut to depth 3, slot 79 holds the fragment.
\<close>

definition nearBlock :: block where
  "nearBlock = spawnedBlock\<lparr>position := \<lparr>vec_x = 0, vec_y = 1.5, vec_z = 1\<rparr>\<rparr>"

definition nearState :: state where
  "nearState = startedState\<lparr>activeBlock := Some nearBlock\<rparr>"

definition cutBlock :: block where
  "cutBlock =
     \<lparr>position = \<lparr>vec_x = 0, vec_y = 1.5, vec_z = 0.5\<rparr>, width = 4, depth = 3,
      baseWidth = Some 4, baseDepth = Some 3\<rparr>"

definition fragment :: rubble where
  "fragment =
     \<lparr>isActive = True,
      r_position = \<lparr>vec_x = 0, vec_y = 1.5, vec_z = 2.5\<rparr>,
      r_rotation = \<lparr>vec_x = 0, vec_y = 0, vec_z = 0\<rparr>,
      r_scale = \<lparr>vec_x = 4, vec_y = 1, vec_z = 1\<rparr>,
      r_velocity = \<lparr>vec_x = 0, vec_y = - 10, vec_z = 0\<rparr>,
      r_angularVelocity = \<lparr>vec_x = 0, vec_y = 0, vec_z = 0\<rparr>\<rparr>"

definition cutState :: state where
  "cutState =
     nearState\<lparr>score := 1, speed := 0.186, stack := [foundationBlock, cutBlock],
       axis := AxisX, direction := - 1,
       activeBlock := Some \<lparr>position = \<lparr>vec_x = 12, vec_y = 2.5, vec_z = 0.5\<rparr>,
         width = 4, depth = 3, baseWidth = Some 4, baseDepth = Some 3\<rparr>,
       lastSpawnTime := 9000,
       rubbleData := (replicate 80 freshRubble)[79 := fragment],
       rubbleFree := [0..<79], rubbleActive := [79]\<rparr>"

text \<open>The same drop with every slot of the pool in use.\<close>

definition exhaustedState :: state where
  "exhaustedState =
     nearState\<lparr>rubbleData := replicate 80 (freshRubble\<lparr>isActive := True\<rparr>),
       rubbleFree := [], rubbleActive := [0..<80]\<rparr>"

text \<open>The graphics module before \<^verbatim>\<open>initEngine\<close>.\<close>

definition noEngine :: gfx where
  "noEngine = \<lparr>scene = False, rubbleInstances = False\<rparr>"

text \<open>The state after the cut, cleaned up: slot 79 keeps its data and is inactive.\<close>

definition cleanedState :: state where
  "cleanedState =
     cutState\<lparr>stack := [], activeBlock := None,
       rubbleData := (replicate 80 freshRubble)[79 := fragment\<lparr>isActive := False\<rparr>],
       rubbleFree := [0..<80], rubbleActive := []\<rparr>"

text \<open>The started game with the block moving outwards, 0.1 before the bound.\<close>

definition edgeBlock :: block where
  "edgeBlock = spawnedBlock\<lparr>position := \<lparr>vec_x = 0, vec_y = 1.5, vec_z = 12.9\<rparr>\<rparr>"

definition edgeState :: state where
  "edgeState = startedState\<lparr>direction := 1, activeBlock := Some edgeBlock\<rparr>"

text \<open>
  A game at stack height 3 on the motion axis \<open>x\<close>: a full block on the foundation, a
  block cut to depth 3 on it, and the active block 0.2 off the top block.
\<close>

definition secondBlock :: block where
  "secondBlock = foundationBlock\<lparr>position := \<lparr>vec_x = 0, vec_y = 1.5, vec_z = 0\<rparr>\<rparr>"

definition thirdBlock :: block where
  "thirdBlock =
     \<lparr>position = \<lparr>vec_x = 0, vec_y = 2.5, vec_z = 0.5\<rparr>, width = 4, depth = 3,
      baseWidth = Some 4, baseDepth = Some 3\<rparr>"

definition offsetBlock :: block where
  "offsetBlock =
     \<lparr>position = \<lparr>vec_x = 0.2, vec_y = 3.5, vec_z = 0.5\<rparr>, width = 4, depth = 3,
      baseWidth = Some 4, baseDepth = Some 3\<rparr>"

definition heightThreeState :: state where
  "heightThreeState =
     startedState\<lparr>score := 2, combo := 0, speed := 0.192,
       stack := [foundationBlock, secondBlock, thirdBlock], axis := AxisX, direction := 1,
       activeBlock := Some offsetBlock, lastSpawnTime := 20000\<rparr>"

section \<open>Properties\<close>

lemmas example_defs =
  foundationBlock_def spawnedBlock_def bootState_def startedState_def someRandoms_def
  initialState_def engineReady_def MAX_RUBBLE_def BLOCK_HEIGHT_def INITIAL_SIZE_def
  freshRubble_def

lemmas overlap_defs =
  placeOverlap_def placeDelta_def mercyThreshold_def sizeOn_def otherOn_def

text \<open>The example states are what the code produces.\<close>

lemma initEngine_initialState:
  "initEngine initialState = Inr (bootState\<lparr>status := LOADING\<rparr>)"
  by (simp add: initEngine_def createFoundation_def example_defs)

subsection \<open>gameOver\<close>

lemma status_gameOver: "status (gameOver s) = GAMEOVER"
  by (simp add: gameOver_def triggerCrashFeedback_def triggerShake_def Let_def)

lemma activeBlock_gameOver: "activeBlock (gameOver s) = activeBlock s"
  by (simp add: gameOver_def triggerCrashFeedback_def triggerShake_def Let_def)

lemma stack_gameOver: "stack (gameOver s) = stack s"
  by (simp add: gameOver_def triggerCrashFeedback_def triggerShake_def Let_def)

subsection \<open>placeBlock: the ignored drop\<close>




subsection \<open>placeBlock: the miss\<close>

text \<open>
  C1, as the code has it. In status PLAYING, with an active block, past the grace
  period and with a block below, a placement whose overlap is at most 0.05 while the
  safety net is not active with uses left ends the game: \<^verbatim>\<open>placeBlock\<close> returns the
  state of \<^verbatim>\<open>gameOver\<close>, whose status is GAMEOVER. The active block is not cleared:
  it is the one that was dropped, and the stack is unchanged.
\<close>

theorem C1_placeBlock_miss_ends_game:
  assumes "status s = PLAYING" and "activeBlock s = Some active" and "\<not> inGrace now s"
    and "stack s \<noteq> []"
    and "placeOverlap s active (last (stack s)) \<le> 0.05"
    and "\<not> (safetyNet_active s \<and> safetyNet_uses s > 0)"
  shows "placeBlock g now rnd s = Inr (gameOver s)
    \<and> status (gameOver s) = GAMEOVER
    \<and> activeBlock (gameOver s) = Some active
    \<and> stack (gameOver s) = stack s"
  using assms
  by (auto simp: placeBlock_def status_gameOver activeBlock_gameOver stack_gameOver)

theorem C1_witness:
  "status startedState = PLAYING \<and> activeBlock startedState = Some spawnedBlock
   \<and> \<not> inGrace 9000 startedState \<and> stack startedState \<noteq> []
   \<and> placeOverlap startedState spawnedBlock (last (stack startedState)) \<le> 0.05
   \<and> \<not> (safetyNet_active startedState \<and> safetyNet_uses startedState > 0)
   \<and> placeBlock engineReady 9000 someRandoms startedState = Inr (gameOver startedState)
   \<and> status (gameOver startedState) = GAMEOVER
   \<and> activeBlock (gameOver startedState) = Some spawnedBlock"
proof -
  have h1: "status startedState = PLAYING"
    and h2: "activeBlock startedState = Some spawnedBlock"
    and h3: "\<not> inGrace 9000 startedState"
    and h4: "stack startedState \<noteq> []"
    and h6: "\<not> (safetyNet_active startedState \<and> safetyNet_uses startedState > 0)"
    by (simp_all add: inGrace_def startedState_def bootState_def initialState_def)
  have h5: "placeOverlap startedState spawnedBlock (last (stack startedState)) \<le> 0.05"
    by (simp add: overlap_defs example_defs)
  from C1_placeBlock_miss_ends_game [OF h1 h2 h3 h4 h5 h6, of engineReady someRandoms]
    h1 h2 h3 h4 h5 h6
  show ?thesis by simp
qed

text \<open>
  The claim as stated fails: after the miss the status is GAMEOVER, and the active block
  is still the block that was dropped.
\<close>

theorem C1_counterexample:
  "status startedState = PLAYING \<and> activeBlock startedState = Some spawnedBlock
   \<and> \<not> inGrace 9000 startedState
   \<and> placeOverlap startedState spawnedBlock (last (stack startedState)) \<le> 0.05
   \<and> \<not> safetyNet_active startedState
   \<and> map_sum id status (placeBlock engineReady 9000 someRandoms startedState)
       = Inr GAMEOVER
   \<and> map_sum id activeBlock (placeBlock engineReady 9000 someRandoms startedState)
       = Inr (Some spawnedBlock)"
  by (simp add: placeBlock_def inGrace_def overlap_defs example_defs gameOver_def
      triggerCrashFeedback_def triggerShake_def)

text \<open>
  C2. In status PLAYING, with an active block, past the grace period, with a block
  below and a scene, a placement whose overlap is at most 0.05 while the safety net is
  active with uses left keeps the status PLAYING, sets the combo to 0, takes exactly one
  use (the effect stays active exactly when uses remain), leaves the stack as it is and
  spawns a new active block: on the level above the stack (the level of index
  \<^verbatim>\<open>stack.length\<close>, which is one block height above the top block when that
  sits on its own level), on the flipped axis at offset 12 or -12, aligned with the top
  block on the other axis.
\<close>

theorem C2_placeBlock_safety_net:
  assumes "status s = PLAYING" and "activeBlock s = Some active" and "\<not> inGrace now s"
    and "stack s \<noteq> []" and "scene g"
    and "placeOverlap s active (last (stack s)) \<le> 0.05"
    and "safetyNet_active s" and "safetyNet_uses s > 0"
  shows "\<exists>s' b. placeBlock g now rnd s = Inr s'
    \<and> status s' = PLAYING \<and> combo s' = 0
    \<and> safetyNet_uses s' = safetyNet_uses s - 1
    \<and> (safetyNet_active s' \<longleftrightarrow> safetyNet_uses s' \<noteq> 0)
    \<and> stack s' = stack s
    \<and> activeBlock s' = Some b
    \<and> vec_y (position b) = real (length (stack s)) * BLOCK_HEIGHT + BLOCK_HEIGHT / 2
    \<and> (vec_y (position (last (stack s)))
          = real (length (stack s) - 1) * BLOCK_HEIGHT + BLOCK_HEIGHT / 2
        \<longrightarrow> vec_y (position b) = vec_y (position (last (stack s))) + BLOCK_HEIGHT)
    \<and> axis s' = otherAxis (axis s)
    \<and> getAxis (axis s) (position b) = getAxis (axis s) (position (last (stack s)))
    \<and> \<bar>getAxis (axis s') (position b)\<bar> = 12
    \<and> lastSpawnTime s' = now"
proof -
  have "placeBlock g now rnd s = safetyNetMiss g now rnd s"
    using assms by (simp add: placeBlock_def)
  then have "\<exists>s' b. placeBlock g now rnd s = Inr s'
    \<and> status s' = PLAYING \<and> combo s' = 0
    \<and> safetyNet_uses s' = safetyNet_uses s - 1
    \<and> (safetyNet_active s' \<longleftrightarrow> safetyNet_uses s' \<noteq> 0)
    \<and> stack s' = stack s
    \<and> activeBlock s' = Some b
    \<and> vec_y (position b) = real (length (stack s)) * BLOCK_HEIGHT + BLOCK_HEIGHT / 2
    \<and> axis s' = otherAxis (axis s)
    \<and> getAxis (axis s) (position b) = getAxis (axis s) (position (last (stack s)))
    \<and> \<bar>getAxis (axis s') (position b)\<bar> = 12
    \<and> lastSpawnTime s' = now"
    using assms
    by (cases "axis s") (simp_all add: safetyNetMiss_def spawnNewBlock_def Let_def otherAxis_def)
  then obtain s' b where r: "placeBlock g now rnd s = Inr s'"
    "status s' = PLAYING" "combo s' = 0" "safetyNet_uses s' = safetyNet_uses s - 1"
    "safetyNet_active s' \<longleftrightarrow> safetyNet_uses s' \<noteq> 0" "stack s' = stack s"
    "activeBlock s' = Some b"
    and y: "vec_y (position b) = real (length (stack s)) * BLOCK_HEIGHT + BLOCK_HEIGHT / 2"
    and r': "axis s' = otherAxis (axis s)"
    "getAxis (axis s) (position b) = getAxis (axis s) (position (last (stack s)))"
    "\<bar>getAxis (axis s') (position b)\<bar> = 12" "lastSpawnTime s' = now"
    by blast
  from assms(4) have n: "real (length (stack s)) = real (length (stack s) - 1) + 1"
    by (cases "stack s") simp_all
  have "vec_y (position b) = vec_y (position (last (stack s))) + BLOCK_HEIGHT"
    if "vec_y (position (last (stack s)))
          = real (length (stack s) - 1) * BLOCK_HEIGHT + BLOCK_HEIGHT / 2"
    using that y n unfolding BLOCK_HEIGHT_def by linarith
  with r y r' show ?thesis by blast
qed

theorem C2_witness:
  "status netState = PLAYING \<and> activeBlock netState = Some spawnedBlock
   \<and> \<not> inGrace 9000 netState \<and> stack netState \<noteq> [] \<and> scene engineReady
   \<and> placeOverlap netState spawnedBlock (last (stack netState)) \<le> 0.05
   \<and> safetyNet_active netState \<and> safetyNet_uses netState > 0
   \<and> (\<exists>s' b. placeBlock engineReady 9000 someRandoms netState = Inr s'
         \<and> status s' = PLAYING \<and> combo s' = 0 \<and> safetyNet_uses s' = 0
         \<and> \<not> safetyNet_active s' \<and> stack s' = [foundationBlock]
         \<and> activeBlock s' = Some b \<and> vec_y (position b) = 1.5
         \<and> vec_y (position b) = vec_y (position foundationBlock) + 1
         \<and> axis s' = AxisX \<and> \<bar>vec_x (position b)\<bar> = 12 \<and> vec_z (position b) = 0)"
proof -
  have h1: "status netState = PLAYING"
    and h2: "activeBlock netState = Some spawnedBlock"
    and h3: "\<not> inGrace 9000 netState"
    and h4: "stack netState \<noteq> []"
    and h5: "scene engineReady"
    and h7: "safetyNet_active netState"
    and h8: "safetyNet_uses netState > 0"
    by (simp_all add: inGrace_def netState_def startedState_def bootState_def
        initialState_def engineReady_def)
  have h6: "placeOverlap netState spawnedBlock (last (stack netState)) \<le> 0.05"
    by (simp add: overlap_defs netState_def example_defs)
  have vals: "safetyNet_uses netState = 1" "stack netState = [foundationBlock]"
    "axis netState = AxisZ" "position foundationBlock = \<lparr>vec_x = 0, vec_y = 0.5, vec_z = 0\<rparr>"
    by (simp_all add: netState_def startedState_def bootState_def foundationBlock_def)
  from C2_placeBlock_safety_net [OF h1 h2 h3 h4 h5 h6 h7 h8, where rnd = someRandoms]
  obtain s' b where r: "placeBlock engineReady 9000 someRandoms netState = Inr s'"
    "status s' = PLAYING" "combo s' = 0" "safetyNet_uses s' = safetyNet_uses netState - 1"
    "safetyNet_active s' \<longleftrightarrow> safetyNet_uses s' \<noteq> 0" "stack s' = stack netState"
    "activeBlock s' = Some b"
    "vec_y (position b) = real (length (stack netState)) * BLOCK_HEIGHT + BLOCK_HEIGHT / 2"
    "vec_y (position (last (stack netState)))
          = real (length (stack netState) - 1) * BLOCK_HEIGHT + BLOCK_HEIGHT / 2
        \<longrightarrow> vec_y (position b) = vec_y (position (last (stack netState))) + BLOCK_HEIGHT"
    "axis s' = otherAxis (axis netState)"
    "getAxis (axis netState) (position b)
       = getAxis (axis netState) (position (last (stack netState)))"
    "\<bar>getAxis (axis s') (position b)\<bar> = 12"
    by blast
  from r vals have "status s' = PLAYING \<and> combo s' = 0 \<and> safetyNet_uses s' = 0
      \<and> \<not> safetyNet_active s' \<and> stack s' = [foundationBlock]
      \<and> activeBlock s' = Some b \<and> vec_y (position b) = 1.5
      \<and> vec_y (position b) = vec_y (position foundationBlock) + 1
      \<and> axis s' = AxisX \<and> \<bar>vec_x (position b)\<bar> = 12 \<and> vec_z (position b) = 0"
    by (simp add: otherAxis_def BLOCK_HEIGHT_def)
  with r(1) h1 h2 h3 h4 h5 h6 h7 h8 show ?thesis by blast
qed

subsection \<open>The rubble pool: acquisition, recycling, reset\<close>

lemma swapRemove_snoc:
  "swapRemove a (ys @ [l]) = (if a < length ys then ys[a := l] else ys)"
  by (simp add: swapRemove_def)

lemma distinct_swapRemove:
  assumes "distinct xs" and "a < length xs"
  shows "distinct (swapRemove a xs)"
    and "set (swapRemove a xs) = set xs - {xs ! a}"
proof -
  from assms(2) obtain ys l where xs: "xs = ys @ [l]"
    by (cases xs rule: rev_cases) auto
  from assms(1) xs have d: "distinct ys" and l: "l \<notin> set ys" by auto
  show "distinct (swapRemove a xs)"
    using d l by (simp add: xs swapRemove_snoc distinct_list_update)
  show "set (swapRemove a xs) = set xs - {xs ! a}"
  proof (cases "a < length ys")
    case True
    then have "ys ! a \<in> set ys" by simp
    with l have "l \<noteq> ys ! a" by auto
    with True d l show ?thesis
      by (auto simp: xs swapRemove_snoc set_update_distinct nth_append)
  next
    case False
    with assms(2) xs have "a = length ys" by simp
    with l show ?thesis by (auto simp: xs swapRemove_snoc)
  qed
qed

lemma length_swapRemove: "xs \<noteq> [] \<Longrightarrow> length (swapRemove a xs) = length xs - 1"
  by (simp add: swapRemove_def Let_def)


lemma poolInv_activeD:
  assumes "poolInv s" and "a < length (rubbleActive s)"
  shows "rubbleActive s ! a < length (rubbleData s)"
    and "isActive (rubbleData s ! (rubbleActive s ! a))"
    and "rubbleActive s ! a \<notin> set (rubbleFree s)"
    and "rubbleActive s ! a < MAX_RUBBLE"
proof -
  let ?i = "rubbleActive s ! a"
  from assms(2) have m: "?i \<in> set (rubbleActive s)" by simp
  with assms(1) have "?i \<in> {0..<MAX_RUBBLE}" unfolding poolInv_def by auto
  then show lt: "?i < MAX_RUBBLE" by simp
  with assms(1) show "?i < length (rubbleData s)" by (simp add: poolInv_def)
  from assms(1) lt m show "isActive (rubbleData s ! ?i)" by (simp add: poolInv_def)
  from assms(1) m show "?i \<notin> set (rubbleFree s)" by (auto simp: poolInv_def)
qed

lemma poolInv_recycle:
  assumes inv: "poolInv s" and a: "a < length (rubbleActive s)"
    and r: "\<not> isActive r"
  shows "poolInv (s\<lparr>rubbleData := (rubbleData s)[rubbleActive s ! a := r],
           rubbleFree := rubbleFree s @ [rubbleActive s ! a],
           rubbleActive := swapRemove a (rubbleActive s)\<rparr>)"
proof -
  let ?i = "rubbleActive s ! a"
  from inv have d: "distinct (rubbleActive s)" by (simp add: poolInv_def)
  note sr = distinct_swapRemove [OF d a]
  note D = poolInv_activeD [OF inv a]
  have m: "?i \<in> set (rubbleActive s)" using a by simp
  from inv have dis: "set (rubbleFree s) \<inter> set (rubbleActive s) = {}"
    and df: "distinct (rubbleFree s)"
    and un: "set (rubbleFree s) \<union> set (rubbleActive s) = {0..<MAX_RUBBLE}"
    and len: "length (rubbleData s) = MAX_RUBBLE"
    and act: "\<And>j. j < MAX_RUBBLE \<Longrightarrow> isActive (rubbleData s ! j) \<longleftrightarrow> j \<in> set (rubbleActive s)"
    by (auto simp: poolInv_def)
  have 1: "distinct ((rubbleFree s @ [?i]) @ swapRemove a (rubbleActive s))"
    using df D(3) sr dis by auto
  have 2: "set ((rubbleFree s @ [?i]) @ swapRemove a (rubbleActive s)) = {0..<MAX_RUBBLE}"
    using sr(2) un m by auto
  have 3: "\<forall>j<MAX_RUBBLE. isActive ((rubbleData s)[?i := r] ! j)
      \<longleftrightarrow> j \<in> set (swapRemove a (rubbleActive s))"
    using sr(2) act r len D(1) by (auto simp: nth_list_update)
  show ?thesis
    unfolding poolInv_def using 1 2 3 len by simp
qed

lemma poolInv_update_active:
  assumes inv: "poolInv s" and a: "a < length (rubbleActive s)" and r: "isActive r"
  shows "poolInv (s\<lparr>rubbleData := (rubbleData s)[rubbleActive s ! a := r]\<rparr>)"
proof -
  have m: "rubbleActive s ! a \<in> set (rubbleActive s)" using a by simp
  note D = poolInv_activeD [OF inv a]
  show ?thesis
    using inv r m D(1) unfolding poolInv_def by (auto simp: nth_list_update)
qed

lemma rubbleStep_poolInv:
  assumes inv: "poolInv s" and a: "a < length (rubbleActive s)" and g: "rubbleInstances g"
  shows "\<exists>s'. rubbleStep g dt a s = Inr s' \<and> poolInv s' \<and> a \<le> length (rubbleActive s')"
proof -
  note D = poolInv_activeD [OF inv a]
  have ne: "rubbleActive s \<noteq> []" using a by auto
  show ?thesis
    using a g D(1,2) ne poolInv_recycle [OF inv a] poolInv_update_active [OF inv a]
    by (auto simp: rubbleStep_def Let_def length_swapRemove)
qed

lemma rubbleLoop_poolInv:
  assumes "poolInv s" and "n \<le> length (rubbleActive s)" and "rubbleInstances g"
  shows "\<exists>s'. rubbleLoop g dt n s = Inr s' \<and> poolInv s'"
  using assms
proof (induction n arbitrary: s)
  case 0
  then show ?case by simp
next
  case (Suc n)
  then have "n < length (rubbleActive s)" by simp
  from rubbleStep_poolInv [OF Suc.prems(1) this Suc.prems(3)]
  obtain s1 where s1: "rubbleStep g dt n s = Inr s1" "poolInv s1" "n \<le> length (rubbleActive s1)"
    by blast
  from Suc.IH [OF s1(2) s1(3) Suc.prems(3)] s1(1) show ?case by simp
qed

lemma updateRubble_poolInv:
  "poolInv s \<Longrightarrow> rubbleInstances g \<Longrightarrow> \<exists>s'. updateRubble g dt s = Inr s' \<and> poolInv s'"
  unfolding updateRubble_def by (rule rubbleLoop_poolInv) simp_all


lemma poolInv_acquire_snoc:
  assumes inv: "poolInv s" and fs: "rubbleFree s = fs @ [i]" and r: "isActive r"
  shows "poolInv (s\<lparr>rubbleFree := fs, rubbleActive := rubbleActive s @ [i],
           rubbleData := (rubbleData s)[i := r]\<rparr>)"
    and "i < length (rubbleData s)"
proof -
  from inv have "distinct (fs @ [i] @ rubbleActive s)"
    and un: "set (fs @ [i] @ rubbleActive s) = {0..<MAX_RUBBLE}"
    and len: "length (rubbleData s) = MAX_RUBBLE"
    and act: "\<And>j. j < MAX_RUBBLE \<Longrightarrow> isActive (rubbleData s ! j) \<longleftrightarrow> j \<in> set (rubbleActive s)"
    unfolding poolInv_def fs by simp_all
  then have d: "distinct (fs @ rubbleActive s @ [i])" by auto
  from un have lt: "i < MAX_RUBBLE" by auto
  with len show "i < length (rubbleData s)" by simp
  have 3: "\<forall>j<MAX_RUBBLE. isActive ((rubbleData s)[i := r] ! j)
      \<longleftrightarrow> j \<in> set (rubbleActive s @ [i])"
    using act r len lt by (auto simp: nth_list_update)
  have un': "set (fs @ rubbleActive s @ [i]) = {0..<MAX_RUBBLE}"
    using un by auto
  show "poolInv (s\<lparr>rubbleFree := fs, rubbleActive := rubbleActive s @ [i],
           rubbleData := (rubbleData s)[i := r]\<rparr>)"
    unfolding poolInv_def using d un' 3 len by simp
qed

lemma poolInv_acquire:
  assumes inv: "poolInv s" and ne: "rubbleFree s \<noteq> []" and r: "isActive r"
  shows "poolInv (s\<lparr>rubbleFree := butlast (rubbleFree s),
           rubbleActive := rubbleActive s @ [last (rubbleFree s)],
           rubbleData := (rubbleData s)[last (rubbleFree s) := r]\<rparr>)"
    and "last (rubbleFree s) < length (rubbleData s)"
proof -
  from ne obtain fs i where fs: "rubbleFree s = fs @ [i]"
    by (cases "rubbleFree s" rule: rev_cases) auto
  from poolInv_acquire_snoc [OF inv fs r] fs
  show "poolInv (s\<lparr>rubbleFree := butlast (rubbleFree s),
           rubbleActive := rubbleActive s @ [last (rubbleFree s)],
           rubbleData := (rubbleData s)[last (rubbleFree s) := r]\<rparr>)"
    and "last (rubbleFree s) < length (rubbleData s)"
    by simp_all
qed

lemma spawnRubble_poolInv:
  assumes "poolInv s" and "rubbleInstances g"
  shows "\<exists>s'. spawnRubble g rnd s active prev ax delta overlap = Inr s' \<and> poolInv s'"
proof (cases "rubbleFree s = []")
  case True
  with assms show ?thesis by (simp add: spawnRubble_def)
next
  case False
  have a: "isActive \<lparr>isActive = True, r_position = p, r_rotation = q, r_scale = sc,
      r_velocity = v, r_angularVelocity = w\<rparr>" for p q sc v w
    by simp
  from poolInv_acquire(1) [OF assms(1) False a] poolInv_acquire(2) [OF assms(1) False a]
    assms(2) False
  show ?thesis
    by (simp add: spawnRubble_def Let_def)
qed

lemma forIndices_append:
  "forIndices body (xs @ ys) s =
     (case forIndices body xs s of Inl e \<Rightarrow> Inl e | Inr s' \<Rightarrow> forIndices body ys s')"
  by (induction xs arbitrary: s) (auto split: sum.splits)

lemma resetSlots_ok:
  "n \<le> length (rubbleData s) \<Longrightarrow>
   forIndices resetSlot [0..<n] s =
     Inr (s\<lparr>rubbleData := map (\<lambda>r. r\<lparr>isActive := False\<rparr>) (take n (rubbleData s)) @ drop n (rubbleData s),
            rubbleFree := rubbleFree s @ [0..<n]\<rparr>)"
proof (induction n)
  case 0
  then show ?case by simp
next
  case (Suc n)
  let ?d = "rubbleData s"
  let ?f = "\<lambda>r. r\<lparr>isActive := False\<rparr>"
  from Suc.prems have n: "n < length ?d" by simp
  have upd: "(map ?f (take n ?d) @ drop n ?d)[n := ?f ((map ?f (take n ?d) @ drop n ?d) ! n)]
      = map ?f (take (Suc n) ?d) @ drop (Suc n) ?d"
    using n by (simp add: list_update_append nth_append take_Suc_conv_app_nth
        Cons_nth_drop_Suc [symmetric] min_def)
  show ?case
    using Suc.IH n upd by (simp add: forIndices_append resetSlot_def)
qed

lemma resetSlots_fail:
  "length (rubbleData s) < n \<Longrightarrow> forIndices resetSlot [0..<n] s = Inl TypeError"
proof (induction n)
  case 0
  then show ?case by simp
next
  case (Suc n)
  show ?case
  proof (cases "length (rubbleData s) < n")
    case True
    with Suc.IH show ?thesis by (simp add: forIndices_append)
  next
    case False
    with Suc.prems have n: "n = length (rubbleData s)" by simp
    have "resetSlot n s' = Inl TypeError" if "length (rubbleData s') = n" for s'
      using that by (simp add: resetSlot_def)
    then show ?thesis
      using resetSlots_ok [of n s] n by (simp add: forIndices_append)
  qed
qed


lemma cleanup_noScene:
  "\<not> scene g \<Longrightarrow> cleanup g s = Inr (s\<lparr>stack := [], activeBlock := None\<rparr>)"
  by (simp add: cleanup_def)

lemma cleanup_noPool:
  "scene g \<Longrightarrow> \<not> (rubbleInstances g \<and> rubbleData s \<noteq> []) \<Longrightarrow>
   cleanup g s = Inr (s\<lparr>stack := [], activeBlock := None\<rparr>)"
  by (auto simp: cleanup_def)

lemma cleanup_pool:
  assumes "scene g" and "rubbleInstances g" and "rubbleData s \<noteq> []"
    and "MAX_RUBBLE \<le> length (rubbleData s)"
  shows "cleanup g s =
     Inr (s\<lparr>stack := [], activeBlock := None, rubbleFree := [0..<MAX_RUBBLE],
            rubbleActive := [],
            rubbleData := map (\<lambda>r. r\<lparr>isActive := False\<rparr>) (take MAX_RUBBLE (rubbleData s))
                          @ drop MAX_RUBBLE (rubbleData s)\<rparr>)"
  using assms by (simp add: cleanup_def resetSlots_ok)

lemma cleanup_short:
  assumes "scene g" and "rubbleInstances g" and "rubbleData s \<noteq> []"
    and "length (rubbleData s) < MAX_RUBBLE"
  shows "cleanup g s = Inl TypeError"
  using assms by (simp add: cleanup_def resetSlots_fail)

lemma cleanup_idem:
  assumes "cleanup g s = Inr s'"
  shows "cleanup g s' = Inr s' \<and> stack s' = [] \<and> activeBlock s' = None"
proof (cases "scene g \<and> rubbleInstances g \<and> rubbleData s \<noteq> []")
  case False
  then have "cleanup g s = Inr (s\<lparr>stack := [], activeBlock := None\<rparr>)"
    by (auto simp: cleanup_def)
  with assms have s': "s' = s\<lparr>stack := [], activeBlock := None\<rparr>" by simp
  from False show ?thesis unfolding s' by (auto simp: cleanup_def)
next
  case True
  show ?thesis
  proof (cases "MAX_RUBBLE \<le> length (rubbleData s)")
    case False
    with True assms show ?thesis by (simp add: cleanup_short)
  next
    case le: True
    let ?f = "\<lambda>r. r\<lparr>isActive := False\<rparr>"
    let ?d = "map ?f (take MAX_RUBBLE (rubbleData s)) @ drop MAX_RUBBLE (rubbleData s)"
    from True le assms have s': "s' = s\<lparr>stack := [], activeBlock := None,
        rubbleFree := [0..<MAX_RUBBLE], rubbleActive := [], rubbleData := ?d\<rparr>"
      by (simp add: cleanup_pool)
    have len: "length ?d = length (rubbleData s)" using le by simp
    have ne: "?d \<noteq> []" using True len by (metis length_0_conv)
    have d: "map ?f (take MAX_RUBBLE ?d) @ drop MAX_RUBBLE ?d = ?d"
      using le by (simp add: min_def)
    from True have g: "scene g" "rubbleInstances g" by simp_all
    have "cleanup g s' = Inr (s'\<lparr>stack := [], activeBlock := None,
        rubbleFree := [0..<MAX_RUBBLE], rubbleActive := [],
        rubbleData := map ?f (take MAX_RUBBLE (rubbleData s')) @ drop MAX_RUBBLE (rubbleData s')\<rparr>)"
      by (rule cleanup_pool [OF g]) (use ne len le in \<open>simp_all add: s'\<close>)
    then show ?thesis using d by (simp add: s')
  qed
qed

lemma cleanup_poolInv:
  assumes "scene g" and "rubbleInstances g" and "length (rubbleData s) = MAX_RUBBLE"
  shows "\<exists>s'. cleanup g s = Inr s' \<and> rubbleFree s' = [0..<MAX_RUBBLE] \<and> rubbleActive s' = []
     \<and> (\<forall>i<MAX_RUBBLE. \<not> isActive (rubbleData s' ! i)) \<and> poolInv s'"
proof -
  from assms(3) have ne: "rubbleData s \<noteq> []" by (auto simp: MAX_RUBBLE_def)
  from assms(3) have le: "MAX_RUBBLE \<le> length (rubbleData s)" by simp
  show ?thesis
    unfolding cleanup_pool [OF assms(1,2) ne le] using assms(3)
    by (simp add: poolInv_def)
qed

subsection \<open>placeBlock: the cut\<close>

lemma decrementSuperSize_frame [simp]:
  "stack (decrementSuperSize s) = stack s"
  "rubbleFree (decrementSuperSize s) = rubbleFree s"
  "rubbleActive (decrementSuperSize s) = rubbleActive s"
  "rubbleData (decrementSuperSize s) = rubbleData s"
  "score (decrementSuperSize s) = score s"
  "combo (decrementSuperSize s) = combo s"
  "status (decrementSuperSize s) = status s"
  "continuesUsed (decrementSuperSize s) = continuesUsed s"
  "difficulty (decrementSuperSize s) = difficulty s"
  "speed (decrementSuperSize s) = speed s"
  "axis (decrementSuperSize s) = axis s"
  by (simp_all add: decrementSuperSize_def Let_def)

lemma finishPlacement_ok:
  assumes "scene g"
  shows "\<exists>s'. finishPlacement g now rnd s active = Inr s'
    \<and> stack s' = stack s @ [active] \<and> score s' = score s + 1
    \<and> combo s' = combo s \<and> status s' = status s \<and> continuesUsed s' = continuesUsed s
    \<and> rubbleFree s' = rubbleFree s \<and> rubbleActive s' = rubbleActive s
    \<and> rubbleData s' = rubbleData s \<and> activeBlock s' \<noteq> None"
  using assms by (simp add: finishPlacement_def spawnNewBlock_def Let_def)

lemma cut_delta_nonzero:
  "placeOverlap s active prev < sizeOn (axis s) active \<Longrightarrow> placeDelta s active prev \<noteq> 0"
  by (auto simp: placeOverlap_def)

text \<open>
  C3, as the code has it. For a placement past the grace period with a block below, a
  scene and the instanced mesh, whose overlap is above 0.05 and below the block's size
  (the free list holding only indices of the slot array): the placed block is pushed on
  the stack and its extent on the motion axis is the overlap. When the free list is not
  empty, exactly its last index moves to the end of the active list, that slot becomes
  active with extent \<open>size - overlap\<close> on the motion axis, so that placed extent plus
  rubble extent is the original size, and no other slot changes. When the free list is
  empty, no slot changes: the debris is dropped.
\<close>

theorem C3_placeBlock_cut:
  assumes "activeBlock s = Some active" and "\<not> inGrace now s" and "stack s \<noteq> []"
    and "scene g" and "rubbleInstances g"
    and "0.05 < placeOverlap s active (last (stack s))"
    and "placeOverlap s active (last (stack s)) < sizeOn (axis s) active"
    and "rubbleFree s \<noteq> [] \<longrightarrow> last (rubbleFree s) < length (rubbleData s)"
  shows "\<exists>s' placed. placeBlock g now rnd s = Inr s'
    \<and> stack s' = stack s @ [placed]
    \<and> sizeOn (axis s) placed = placeOverlap s active (last (stack s))
    \<and> (rubbleFree s = [] \<longrightarrow>
          rubbleFree s' = [] \<and> rubbleActive s' = rubbleActive s
          \<and> rubbleData s' = rubbleData s)
    \<and> (rubbleFree s \<noteq> [] \<longrightarrow>
          rubbleFree s' = butlast (rubbleFree s)
          \<and> rubbleActive s' = rubbleActive s @ [last (rubbleFree s)]
          \<and> isActive (rubbleData s' ! last (rubbleFree s))
          \<and> getAxis (axis s) (r_scale (rubbleData s' ! last (rubbleFree s)))
              = sizeOn (axis s) active - placeOverlap s active (last (stack s))
          \<and> sizeOn (axis s) placed
              + getAxis (axis s) (r_scale (rubbleData s' ! last (rubbleFree s)))
              = sizeOn (axis s) active
          \<and> (\<forall>j. j \<noteq> last (rubbleFree s) \<longrightarrow> rubbleData s' ! j = rubbleData s ! j))"
proof -
  let ?prev = "last (stack s)"
  let ?delta = "placeDelta s active ?prev"
  let ?overlap = "placeOverlap s active ?prev"
  from assms(7) have dz: "?delta \<noteq> 0" by (rule cut_delta_nonzero)
  have pb: "placeBlock g now rnd s =
      (case placeCut g rnd s active ?prev ?delta ?overlap of
         Inl e \<Rightarrow> Inl e
       | Inr (s1, active') \<Rightarrow> finishPlacement g now rnd s1 active')"
    using assms(1,2,3,6) dz by (simp add: placeBlock_def Let_def)
  show ?thesis
  proof (cases "rubbleFree s = []")
    case True
    then have pc: "placeCut g rnd s active ?prev ?delta ?overlap =
        Inr (decrementSuperSize (s\<lparr>combo := 0\<rparr>),
             active\<lparr>width := (if axis s = AxisX then ?overlap else otherOn (axis s) active),
               depth := (if axis s = AxisX then otherOn (axis s) active else ?overlap),
               position := setAxis (axis s) (getAxis (axis s) (position ?prev) + ?delta / 2)
                             (position active),
               baseWidth := Some (if axis s = AxisX then ?overlap else otherOn (axis s) active),
               baseDepth := Some (if axis s = AxisX then otherOn (axis s) active else ?overlap)\<rparr>)"
      (is "_ = Inr (?s1, ?placed)")
      by (simp add: placeCut_def spawnRubble_def Let_def)
    from finishPlacement_ok [OF assms(4), of now rnd ?s1 ?placed]
    obtain s' where "finishPlacement g now rnd ?s1 ?placed = Inr s'"
      "stack s' = stack ?s1 @ [?placed]" "rubbleFree s' = rubbleFree ?s1"
      "rubbleActive s' = rubbleActive ?s1" "rubbleData s' = rubbleData ?s1"
      by blast
    with pb pc True show ?thesis
      by (cases "axis s") (simp_all add: sizeOn_def)
  next
    case False
    let ?idx = "last (rubbleFree s)"
    from False assms(8) have idx: "?idx < length (rubbleData s)" by simp
    obtain s1 where sr: "spawnRubble g rnd (s\<lparr>combo := 0\<rparr>) active ?prev (axis s) ?delta ?overlap = Inr s1"
      and s1: "rubbleFree s1 = butlast (rubbleFree s)" "rubbleActive s1 = rubbleActive s @ [?idx]"
        "isActive (rubbleData s1 ! ?idx)"
        "getAxis (axis s) (r_scale (rubbleData s1 ! ?idx)) = sizeOn (axis s) active - ?overlap"
        "\<forall>j. j \<noteq> ?idx \<longrightarrow> rubbleData s1 ! j = rubbleData s ! j"
        "stack s1 = stack s"
      using False idx assms(5)
      by (cases "axis s") (simp_all add: spawnRubble_def Let_def)
    let ?placed = "active\<lparr>width := (if axis s = AxisX then ?overlap else otherOn (axis s) active),
               depth := (if axis s = AxisX then otherOn (axis s) active else ?overlap),
               position := setAxis (axis s) (getAxis (axis s) (position ?prev) + ?delta / 2)
                             (position active),
               baseWidth := Some (if axis s = AxisX then ?overlap else otherOn (axis s) active),
               baseDepth := Some (if axis s = AxisX then otherOn (axis s) active else ?overlap)\<rparr>"
    have pc: "placeCut g rnd s active ?prev ?delta ?overlap = Inr (decrementSuperSize s1, ?placed)"
      using sr by (simp add: placeCut_def Let_def)
    from finishPlacement_ok [OF assms(4), of now rnd "decrementSuperSize s1" ?placed]
    obtain s' where "finishPlacement g now rnd (decrementSuperSize s1) ?placed = Inr s'"
      "stack s' = stack (decrementSuperSize s1) @ [?placed]"
      "rubbleFree s' = rubbleFree (decrementSuperSize s1)"
      "rubbleActive s' = rubbleActive (decrementSuperSize s1)"
      "rubbleData s' = rubbleData (decrementSuperSize s1)"
      by blast
    with pb pc False s1 show ?thesis
      by (cases "axis s") (simp_all add: sizeOn_def)
  qed
qed

lemmas cut_example_defs = nearBlock_def nearState_def cutBlock_def fragment_def cutState_def exhaustedState_def noEngine_def

lemma butlast_upt_80: "butlast [0..<80] = [0..<79]"
proof -
  have "[0..<80] = [0..<79] @ [79]" by (simp add: upt_rec)
  then show ?thesis by (simp only: butlast_snoc)
qed

text \<open>The drop of the example evaluates to the state written out above.\<close>

lemma placeBlock_nearState:
  "placeBlock engineReady 9000 someRandoms nearState = Inr cutState"
  by (simp add: placeBlock_def inGrace_def overlap_defs example_defs cut_example_defs
      placeCut_def spawnRubble_def finishPlacement_def spawnNewBlock_def decrementSuperSize_def
      otherAxis_def Let_def butlast_upt_80)


theorem C3_witness:
  "activeBlock nearState = Some nearBlock \<and> \<not> inGrace 9000 nearState
   \<and> stack nearState \<noteq> [] \<and> scene engineReady \<and> rubbleInstances engineReady
   \<and> 0.05 < placeOverlap nearState nearBlock (last (stack nearState))
   \<and> placeOverlap nearState nearBlock (last (stack nearState)) < sizeOn (axis nearState) nearBlock
   \<and> rubbleFree nearState \<noteq> []
   \<and> last (rubbleFree nearState) < length (rubbleData nearState)
   \<and> (\<exists>s' placed. placeBlock engineReady 9000 someRandoms nearState = Inr s'
        \<and> stack s' = [foundationBlock, placed] \<and> depth placed = 3
        \<and> rubbleFree s' = [0..<79] \<and> rubbleActive s' = [79]
        \<and> isActive (rubbleData s' ! 79)
        \<and> vec_z (r_scale (rubbleData s' ! 79)) = 1
        \<and> depth placed + vec_z (r_scale (rubbleData s' ! 79)) = depth nearBlock)"
proof -
  have h1: "activeBlock nearState = Some nearBlock"
    and h2: "\<not> inGrace 9000 nearState"
    and h3: "stack nearState \<noteq> []"
    and h4: "scene engineReady" and h5: "rubbleInstances engineReady"
    by (simp_all add: inGrace_def nearState_def startedState_def bootState_def
        initialState_def engineReady_def)
  have ov: "placeOverlap nearState nearBlock (last (stack nearState)) = 3"
    and ov': "placeOverlap nearState nearBlock foundationBlock = 3"
    and sz: "sizeOn (axis nearState) nearBlock = 4"
    and ax: "axis nearState = AxisZ" and dp: "depth nearBlock = 4"
    and st: "stack nearState = [foundationBlock]"
    by (simp_all add: overlap_defs nearState_def nearBlock_def example_defs)
  have fr: "rubbleFree nearState = [0..<80]" "rubbleActive nearState = []"
    "length (rubbleData nearState) = 80"
    by (simp_all add: nearState_def startedState_def bootState_def initialState_def)
  have h6: "0.05 < placeOverlap nearState nearBlock (last (stack nearState))"
    and h7: "placeOverlap nearState nearBlock (last (stack nearState))
               < sizeOn (axis nearState) nearBlock"
    and h8: "rubbleFree nearState \<noteq> [] \<longrightarrow>
               last (rubbleFree nearState) < length (rubbleData nearState)"
    and ne: "rubbleFree nearState \<noteq> []"
    and lt: "last (rubbleFree nearState) < length (rubbleData nearState)"
    by (simp_all add: ov sz fr)
  from C3_placeBlock_cut [OF h1 h2 h3 h4 h5 h6 h7 h8, where rnd = someRandoms]
  obtain s' placed where r: "placeBlock engineReady 9000 someRandoms nearState = Inr s'"
    "stack s' = stack nearState @ [placed]"
    "sizeOn (axis nearState) placed = placeOverlap nearState nearBlock (last (stack nearState))"
    "rubbleFree nearState \<noteq> [] \<longrightarrow>
          rubbleFree s' = butlast (rubbleFree nearState)
          \<and> rubbleActive s' = rubbleActive nearState @ [last (rubbleFree nearState)]
          \<and> isActive (rubbleData s' ! last (rubbleFree nearState))
          \<and> getAxis (axis nearState) (r_scale (rubbleData s' ! last (rubbleFree nearState)))
              = sizeOn (axis nearState) nearBlock
                - placeOverlap nearState nearBlock (last (stack nearState))
          \<and> sizeOn (axis nearState) placed
              + getAxis (axis nearState) (r_scale (rubbleData s' ! last (rubbleFree nearState)))
              = sizeOn (axis nearState) nearBlock"
    by blast
  from r(2,3,4) have "stack s' = [foundationBlock, placed] \<and> depth placed = 3
        \<and> rubbleFree s' = [0..<79] \<and> rubbleActive s' = [79]
        \<and> isActive (rubbleData s' ! 79)
        \<and> vec_z (r_scale (rubbleData s' ! 79)) = 1
        \<and> depth placed + vec_z (r_scale (rubbleData s' ! 79)) = depth nearBlock"
    by (simp add: ov' sz ax dp st fr sizeOn_def butlast_upt_80)
  with r(1) h1 h2 h3 h4 h5 h6 h7 ne lt show ?thesis by blast
qed

text \<open>
  The claim as stated fails when the pool is exhausted: the placement is partial, the
  block is placed, and no slot moves from the free list to the active list.
\<close>

theorem C3_counterexample:
  "activeBlock exhaustedState = Some nearBlock \<and> \<not> inGrace 9000 exhaustedState
   \<and> 0.05 < placeOverlap exhaustedState nearBlock (last (stack exhaustedState))
   \<and> placeOverlap exhaustedState nearBlock (last (stack exhaustedState))
       < sizeOn (axis exhaustedState) nearBlock
   \<and> rubbleFree exhaustedState = [] \<and> rubbleActive exhaustedState = [0..<80]
   \<and> map_sum id rubbleFree (placeBlock engineReady 9000 someRandoms exhaustedState) = Inr []
   \<and> map_sum id rubbleActive (placeBlock engineReady 9000 someRandoms exhaustedState)
       = Inr [0..<80]
   \<and> map_sum id rubbleData (placeBlock engineReady 9000 someRandoms exhaustedState)
       = Inr (rubbleData exhaustedState)
   \<and> map_sum id (length \<circ> stack) (placeBlock engineReady 9000 someRandoms exhaustedState)
       = Inr 2"
  by (simp add: placeBlock_def inGrace_def overlap_defs example_defs cut_example_defs
      placeCut_def spawnRubble_def finishPlacement_def spawnNewBlock_def decrementSuperSize_def
      otherAxis_def Let_def)

subsection \<open>cleanup\<close>

text \<open>
  C7, as the code has it. Whenever \<^verbatim>\<open>cleanup\<close> returns, a second call returns the
  same state, with the stack and the active block empty. With a scene, the instanced
  mesh and a pool of \<^verbatim>\<open>MAX_RUBBLE\<close> slots it does return, the free list is then
  \<open>0, ..., MAX_RUBBLE - 1\<close>, the active list is empty and every slot is inactive. Without
  a scene it returns after clearing the stack and the active block only: the pool is
  left as it was.
\<close>

theorem C7_cleanup_idempotent:
  "(cleanup g s = Inr s' \<longrightarrow>
      cleanup g s' = Inr s' \<and> stack s' = [] \<and> activeBlock s' = None)
   \<and> (scene g \<and> rubbleInstances g \<and> length (rubbleData s) = MAX_RUBBLE \<longrightarrow>
        (\<exists>s1. cleanup g s = Inr s1 \<and> rubbleFree s1 = [0..<MAX_RUBBLE]
           \<and> rubbleActive s1 = [] \<and> (\<forall>i<MAX_RUBBLE. \<not> isActive (rubbleData s1 ! i))))
   \<and> (\<not> scene g \<longrightarrow> cleanup g s = Inr (s\<lparr>stack := [], activeBlock := None\<rparr>))"
  using cleanup_idem [of g s s'] cleanup_poolInv [of g s] cleanup_noScene [of g s]
  by blast

text \<open>Cleaning up the state after the cut gives the state written out above.\<close>

lemma cleanup_cutState: "cleanup engineReady cutState = Inr cleanedState"
proof -
  have g: "scene engineReady" "rubbleInstances engineReady"
    by (simp_all add: engineReady_def)
  have d: "rubbleData cutState = (replicate 80 freshRubble)[79 := fragment]"
    by (simp add: cutState_def)
  have ne: "rubbleData cutState \<noteq> []" and le: "MAX_RUBBLE \<le> length (rubbleData cutState)"
    unfolding d by (simp_all add: MAX_RUBBLE_def)
  have f: "freshRubble\<lparr>isActive := False\<rparr> = freshRubble"
    by (simp add: freshRubble_def)
  show ?thesis
    unfolding cleanup_pool [OF g ne le] d
    by (simp add: cleanedState_def MAX_RUBBLE_def map_update f)
qed

theorem C7_witness:
  "cleanup engineReady cutState = Inr cleanedState
   \<and> cleanup engineReady cleanedState = Inr cleanedState
   \<and> stack cleanedState = [] \<and> activeBlock cleanedState = None
   \<and> scene engineReady \<and> rubbleInstances engineReady
   \<and> length (rubbleData cutState) = MAX_RUBBLE
   \<and> rubbleActive cutState = [79]
   \<and> rubbleFree cleanedState = [0..<MAX_RUBBLE] \<and> rubbleActive cleanedState = []
   \<and> \<not> scene noEngine
   \<and> cleanup noEngine initialState = Inr initialState"
proof -
  note c = cleanup_cutState
  have g: "scene engineReady" "rubbleInstances engineReady" "\<not> scene noEngine"
    by (simp_all add: engineReady_def noEngine_def)
  have l: "length (rubbleData cutState) = MAX_RUBBLE" "rubbleActive cutState = [79]"
    by (simp_all add: cutState_def MAX_RUBBLE_def)
  have i: "initialState\<lparr>stack := [], activeBlock := None\<rparr> = initialState"
    by (simp add: initialState_def)
  from C7_cleanup_idempotent [of engineReady cutState cleanedState] c
  have 1: "cleanup engineReady cleanedState = Inr cleanedState"
    "stack cleanedState = []" "activeBlock cleanedState = None"
    by simp_all
  from C7_cleanup_idempotent [of engineReady cutState cleanedState] g l c
  have 2: "rubbleFree cleanedState = [0..<MAX_RUBBLE]" "rubbleActive cleanedState = []"
    by auto
  from C7_cleanup_idempotent [of noEngine initialState initialState] g i
  have 3: "cleanup noEngine initialState = Inr initialState" by simp
  from c 1 2 3 g l show ?thesis by simp
qed

text \<open>
  The claim as stated fails without a scene: before \<^verbatim>\<open>initEngine\<close> the pool has no
  slot and the free list stays empty; and a pool with an active slot keeps it active.
\<close>

theorem C7_counterexample:
  "\<not> scene noEngine
   \<and> cleanup noEngine initialState = Inr initialState
   \<and> rubbleFree initialState = [] \<and> rubbleData initialState = []
   \<and> cleanup noEngine cutState = Inr (cutState\<lparr>stack := [], activeBlock := None\<rparr>)
   \<and> rubbleActive (cutState\<lparr>stack := [], activeBlock := None\<rparr>) = [79]
   \<and> isActive (rubbleData (cutState\<lparr>stack := [], activeBlock := None\<rparr>) ! 79)"
  by (simp add: cleanup_def noEngine_def initialState_def cutState_def fragment_def)

subsection \<open>resetGameState\<close>



subsection \<open>animate: the movement of the active block\<close>

lemma updatePowerUpTimers_frame [simp]:
  "status (updatePowerUpTimers dt s) = status s"
  "axis (updatePowerUpTimers dt s) = axis s"
  "direction (updatePowerUpTimers dt s) = direction s"
  "speed (updatePowerUpTimers dt s) = speed s"
  "activeBlock (updatePowerUpTimers dt s) = activeBlock s"
  "stack (updatePowerUpTimers dt s) = stack s"
  "score (updatePowerUpTimers dt s) = score s"
  "continuesUsed (updatePowerUpTimers dt s) = continuesUsed s"
  "rubbleFree (updatePowerUpTimers dt s) = rubbleFree s"
  "rubbleActive (updatePowerUpTimers dt s) = rubbleActive s"
  "rubbleData (updatePowerUpTimers dt s) = rubbleData s"
  by (simp_all add: updatePowerUpTimers_def Let_def)

lemma getAxis_setAxis [simp]: "getAxis a (setAxis a c v) = c"
  by (cases a) simp_all

lemma abs_13_sgn: "\<bar>13 * sgn (p :: real)\<bar> \<le> 13"
  by (simp add: abs_mult)

lemma moveActiveBlock_step:
  assumes "status s = PLAYING" and "activeBlock s = Some b"
  shows "\<exists>b'. activeBlock (moveActiveBlock dt s) = Some b'
    \<and> status (moveActiveBlock dt s) = PLAYING
    \<and> axis (moveActiveBlock dt s) = axis s
    \<and> \<bar>getAxis (axis s) (position b')\<bar> \<le> 13
    \<and> (if \<bar>carriedTo dt s b\<bar> > 13
        then getAxis (axis s) (position b') = 13 * sgn (carriedTo dt s b)
             \<and> direction (moveActiveBlock dt s) = - direction s
        else getAxis (axis s) (position b') = carriedTo dt s b
             \<and> direction (moveActiveBlock dt s) = direction s)"
  using assms
  by (simp add: moveActiveBlock_def carriedTo_def getSpeedMultiplier_def Let_def abs_13_sgn)

lemma moveFrames_bounded:
  assumes "status s = PLAYING" and "activeBlock s = Some b" and "dts \<noteq> []"
  shows "\<exists>b'. activeBlock (moveFrames dts s) = Some b'
    \<and> \<bar>getAxis (axis s) (position b')\<bar> \<le> 13"
  using assms
proof (induction dts arbitrary: s b)
  case Nil
  then show ?case by simp
next
  case (Cons dt dts)
  from moveActiveBlock_step [OF Cons.prems(1,2), of dt]
  obtain b1 where b1: "activeBlock (moveActiveBlock dt s) = Some b1"
    "status (moveActiveBlock dt s) = PLAYING" "axis (moveActiveBlock dt s) = axis s"
    "\<bar>getAxis (axis s) (position b1)\<bar> \<le> 13"
    by blast
  show ?case
  proof (cases "dts = []")
    case True
    with b1 show ?thesis by simp
  next
    case False
    from Cons.IH [OF b1(2) b1(1) False] b1(3) show ?thesis by simp
  qed
qed

text \<open>
  C10. In status PLAYING with an active block, after the movement update of a frame the
  block's coordinate on the motion axis is at most 13 in absolute value: when the update
  carries it past 13 the coordinate is set to 13 or -13 (the sign of where it was
  carried) and the direction is negated, otherwise the coordinate is where it was
  carried and the direction is kept. After any number of frames, one or more, of any
  lengths, the coordinate is still within \<open>[-13, 13]\<close>.
\<close>

theorem C10_active_block_within_13:
  assumes "status s = PLAYING" and "activeBlock s = Some b"
  shows "(\<exists>b'. activeBlock (moveActiveBlock dt s) = Some b'
      \<and> \<bar>getAxis (axis s) (position b')\<bar> \<le> 13
      \<and> (if \<bar>carriedTo dt s b\<bar> > 13
          then getAxis (axis s) (position b') = 13 * sgn (carriedTo dt s b)
               \<and> direction (moveActiveBlock dt s) = - direction s
          else getAxis (axis s) (position b') = carriedTo dt s b
               \<and> direction (moveActiveBlock dt s) = direction s))
    \<and> (\<forall>dts. dts \<noteq> [] \<longrightarrow>
          (\<exists>b'. activeBlock (moveFrames dts s) = Some b'
             \<and> \<bar>getAxis (axis s) (position b')\<bar> \<le> 13))"
  using moveActiveBlock_step [OF assms, of dt] moveFrames_bounded [OF assms] by blast


theorem C10_witness:
  "status edgeState = PLAYING \<and> activeBlock edgeState = Some edgeBlock
   \<and> carriedTo 0.04 edgeState edgeBlock = 13.332
   \<and> (\<exists>b'. activeBlock (moveActiveBlock 0.04 edgeState) = Some b'
         \<and> vec_z (position b') = 13)
   \<and> direction (moveActiveBlock 0.04 edgeState) = - 1
   \<and> (\<exists>b'. activeBlock (moveFrames [0.04, 0.04, 0.04] edgeState) = Some b'
         \<and> \<bar>vec_z (position b')\<bar> \<le> 13)"
proof -
  have h1: "status edgeState = PLAYING" and h2: "activeBlock edgeState = Some edgeBlock"
    and ax: "axis edgeState = AxisZ" and dir: "direction edgeState = 1"
    by (simp_all add: edgeState_def startedState_def)
  have c: "carriedTo 0.04 edgeState edgeBlock = 13.332"
    by (simp add: carriedTo_def getSpeedMultiplier_def updatePowerUpTimers_def
        edgeState_def edgeBlock_def example_defs)
  note t = C10_active_block_within_13 [OF h1 h2, of "0.04"]
  from t c ax dir have 1: "\<exists>b'. activeBlock (moveActiveBlock 0.04 edgeState) = Some b'
      \<and> vec_z (position b') = 13"
    and 2: "direction (moveActiveBlock 0.04 edgeState) = - 1"
    by auto
  from t have "[0.04, 0.04, 0.04] \<noteq> ([] :: real list) \<longrightarrow>
      (\<exists>b'. activeBlock (moveFrames [0.04, 0.04, 0.04] edgeState) = Some b'
         \<and> \<bar>getAxis (axis edgeState) (position b')\<bar> \<le> 13)"
    by blast
  with ax have 3: "\<exists>b'. activeBlock (moveFrames [0.04, 0.04, 0.04] edgeState) = Some b'
         \<and> \<bar>vec_z (position b')\<bar> \<le> 13"
    by (simp del: moveFrames.simps)
  from h1 h2 c 1 2 3 show ?thesis by blast
qed

subsection \<open>What each operation leaves unchanged\<close>

lemma decrementSuperSize_more [simp]:
  "activeBlock (decrementSuperSize s) = activeBlock s"
  by (simp_all add: decrementSuperSize_def Let_def)

lemma awardPowerUp_frame [simp]:
  "stack (awardPowerUp r s) = stack s"
  "score (awardPowerUp r s) = score s"
  "status (awardPowerUp r s) = status s"
  "continuesUsed (awardPowerUp r s) = continuesUsed s"
  "rubbleFree (awardPowerUp r s) = rubbleFree s"
  "rubbleActive (awardPowerUp r s) = rubbleActive s"
  "rubbleData (awardPowerUp r s) = rubbleData s"
  "difficulty (awardPowerUp r s) = difficulty s"
  "speed (awardPowerUp r s) = speed s"
  "axis (awardPowerUp r s) = axis s"
  "combo (awardPowerUp r s) = combo s"
  by (simp_all add: awardPowerUp_def split: option.splits)

lemma gameOver_frame [simp]:
  "score (gameOver s) = score s"
  "continuesUsed (gameOver s) = continuesUsed s"
  "rubbleFree (gameOver s) = rubbleFree s"
  "rubbleActive (gameOver s) = rubbleActive s"
  "rubbleData (gameOver s) = rubbleData s"
  by (simp_all add: gameOver_def triggerCrashFeedback_def triggerShake_def Let_def)

lemma placePerfect_frame:
  "placePerfect rnd s active prev = (s1, active') \<Longrightarrow>
     stack s1 = stack s \<and> score s1 = score s \<and> status s1 = status s
     \<and> continuesUsed s1 = continuesUsed s \<and> combo s1 = combo s + 1
     \<and> rubbleFree s1 = rubbleFree s \<and> rubbleActive s1 = rubbleActive s
     \<and> rubbleData s1 = rubbleData s
     \<and> active' = active\<lparr>position :=
           setAxis (axis s) (getAxis (axis s) (position prev)) (position active)\<rparr>"
  by (auto simp: placePerfect_def triggerPerfectFeedback_def triggerShake_def Let_def)

lemma spawnRubble_frame:
  "spawnRubble g rnd s active prev ax delta overlap = Inr s1 \<Longrightarrow>
     stack s1 = stack s \<and> score s1 = score s \<and> status s1 = status s
     \<and> continuesUsed s1 = continuesUsed s \<and> combo s1 = combo s"
  by (auto simp: spawnRubble_def Let_def split: if_splits)

lemma placeCut_frame:
  "placeCut g rnd s active prev delta overlap = Inr (s1, active') \<Longrightarrow>
     stack s1 = stack s \<and> score s1 = score s \<and> status s1 = status s
     \<and> continuesUsed s1 = continuesUsed s \<and> combo s1 = 0"
  by (auto simp: placeCut_def Let_def split: sum.splits dest!: spawnRubble_frame)

lemma spawnNewBlock_frame:
  "spawnNewBlock g now r s = Inr s' \<Longrightarrow>
     stack s' = stack s \<and> score s' = score s \<and> status s' = status s
     \<and> continuesUsed s' = continuesUsed s \<and> combo s' = combo s
     \<and> rubbleFree s' = rubbleFree s \<and> rubbleActive s' = rubbleActive s
     \<and> rubbleData s' = rubbleData s"
  by (auto simp: spawnNewBlock_def Let_def split: if_splits)

lemma finishPlacement_frame:
  "finishPlacement g now rnd s active = Inr s' \<Longrightarrow>
     stack s' = stack s @ [active] \<and> score s' = score s + 1 \<and> status s' = status s
     \<and> continuesUsed s' = continuesUsed s \<and> combo s' = combo s
     \<and> rubbleFree s' = rubbleFree s \<and> rubbleActive s' = rubbleActive s
     \<and> rubbleData s' = rubbleData s"
  by (auto simp: finishPlacement_def Let_def dest!: spawnNewBlock_frame)

lemma safetyNetMiss_frame:
  "safetyNetMiss g now rnd s = Inr s' \<Longrightarrow>
     stack s' = stack s \<and> score s' = score s \<and> status s' = status s
     \<and> continuesUsed s' = continuesUsed s
     \<and> rubbleFree s' = rubbleFree s \<and> rubbleActive s' = rubbleActive s
     \<and> rubbleData s' = rubbleData s"
  by (auto simp: safetyNetMiss_def Let_def split: if_splits dest!: spawnNewBlock_frame)

text \<open>The four outcomes of a call that returns.\<close>

lemma placeBlock_cases:
  assumes r: "placeBlock g now rnd s = Inr s'"
  obtains (ignored) "s' = s"
  | (over) "s' = gameOver s"
  | (net) "safetyNetMiss g now rnd s = Inr s'"
  | (perfect) active s1 active' where "activeBlock s = Some active" "stack s \<noteq> []"
      "placePerfect rnd s active (last (stack s)) = (s1, active')"
      "finishPlacement g now rnd s1 active' = Inr s'"
  | (cut) active s1 active' delta overlap where "activeBlock s = Some active" "stack s \<noteq> []"
      "placeCut g rnd s active (last (stack s)) delta overlap = Inr (s1, active')"
      "finishPlacement g now rnd s1 active' = Inr s'"
proof (cases "activeBlock s")
  case None
  with r have "s' = s" by (simp add: placeBlock_def)
  then show ?thesis by (rule ignored)
next
  case (Some active)
  show ?thesis
  proof (cases "inGrace now s")
    case True
    with r Some have "s' = s" by (simp add: placeBlock_def)
    then show ?thesis by (rule ignored)
  next
    case False
    let ?prev = "last (stack s)"
    let ?delta = "placeDelta s active ?prev"
    let ?overlap = "placeOverlap s active ?prev"
    from r Some False have ne: "stack s \<noteq> []"
      by (auto simp: placeBlock_def)
    show ?thesis
    proof (cases "?overlap \<le> 0.05")
      case miss: True
      show ?thesis
      proof (cases "safetyNet_active s \<and> safetyNet_uses s > 0")
        case True
        with r Some False ne miss have "safetyNetMiss g now rnd s = Inr s'"
          by (simp add: placeBlock_def)
        then show ?thesis by (rule net)
      next
        case False
        with r Some \<open>\<not> inGrace now s\<close> ne miss have "s' = gameOver s"
          by (auto simp: placeBlock_def)
        then show ?thesis by (rule over)
      qed
    next
      case hit: False
      show ?thesis
      proof (cases "?delta = 0")
        case True
        obtain s1 active' where pp: "placePerfect rnd s active ?prev = (s1, active')"
          by (cases "placePerfect rnd s active ?prev")
        with r Some False ne hit True have "finishPlacement g now rnd s1 active' = Inr s'"
          by (simp add: placeBlock_def)
        with Some ne pp show ?thesis by (rule perfect)
      next
        case False
        with r Some \<open>\<not> inGrace now s\<close> ne hit
        have c: "(case placeCut g rnd s active ?prev ?delta ?overlap of
                   Inl e \<Rightarrow> Inl e
                 | Inr (s1, active') \<Rightarrow> finishPlacement g now rnd s1 active') = Inr s'"
          by (simp add: placeBlock_def Let_def)
        then obtain s1 active' where
          pc: "placeCut g rnd s active ?prev ?delta ?overlap = Inr (s1, active')"
          and fp: "finishPlacement g now rnd s1 active' = Inr s'"
          by (cases "placeCut g rnd s active ?prev ?delta ?overlap") auto
        with Some ne show ?thesis by (rule cut)
      qed
    qed
  qed
qed

lemma placeBlock_continuesUsed:
  assumes "placeBlock g now rnd s = Inr s'"
  shows "continuesUsed s' = continuesUsed s"
  using assms
  by (cases rule: placeBlock_cases)
    (auto dest!: safetyNetMiss_frame placePerfect_frame placeCut_frame finishPlacement_frame)

lemma placeBlock_score_stack:
  assumes "placeBlock g now rnd s = Inr s'"
    and "stack s \<noteq> [] \<longrightarrow> score s + 1 = int (length (stack s))"
  shows "stack s' \<noteq> [] \<longrightarrow> score s' + 1 = int (length (stack s'))"
  using assms
  by (cases rule: placeBlock_cases)
    (auto dest!: safetyNetMiss_frame placePerfect_frame placeCut_frame finishPlacement_frame
       simp: stack_gameOver)


lemma poolInv_eqI:
  "poolInv s \<Longrightarrow> rubbleData s' = rubbleData s \<Longrightarrow> rubbleFree s' = rubbleFree s \<Longrightarrow>
   rubbleActive s' = rubbleActive s \<Longrightarrow> poolInv s'"
  by (simp add: poolInv_def)

lemma placeCut_poolInv:
  assumes "placeCut g rnd s active prev delta overlap = Inr (s1, active')"
    and "poolInv s" and "rubbleInstances g"
  shows "poolInv s1"
proof -
  have p: "poolInv (s\<lparr>combo := 0\<rparr>)"
    using assms(2) by (simp add: poolInv_def)
  from spawnRubble_poolInv [OF p assms(3), of rnd active prev "axis s" delta overlap]
  obtain s0 where s0: "spawnRubble g rnd (s\<lparr>combo := 0\<rparr>) active prev (axis s) delta overlap = Inr s0"
    "poolInv s0"
    by blast
  with assms(1) have "s1 = decrementSuperSize s0"
    by (simp add: placeCut_def Let_def)
  with s0(2) show ?thesis by (auto intro: poolInv_eqI)
qed

lemma placeBlock_poolInv:
  assumes "placeBlock g now rnd s = Inr s'" and "poolInv s" and "rubbleInstances g"
  shows "poolInv s'"
  using assms(1)
proof (cases rule: placeBlock_cases)
  case ignored
  with assms(2) show ?thesis by simp
next
  case over
  with assms(2) show ?thesis by (auto intro: poolInv_eqI)
next
  case net
  from safetyNetMiss_frame [OF net] assms(2) show ?thesis
    by (auto intro: poolInv_eqI)
next
  case (perfect active s1 active')
  from placePerfect_frame [OF perfect(3)] finishPlacement_frame [OF perfect(4)] assms(2)
  show ?thesis by (auto intro: poolInv_eqI)
next
  case (cut active s1 active' delta overlap)
  from placeCut_poolInv [OF cut(3) assms(2,3)] finishPlacement_frame [OF cut(4)]
  show ?thesis by (auto intro: poolInv_eqI)
qed

lemma cleanup_result:
  assumes "cleanup g s = Inr s'"
  obtains d f a where
    "s' = s\<lparr>stack := [], activeBlock := None, rubbleFree := f, rubbleActive := a,
            rubbleData := d\<rparr>"
proof (cases "scene g \<and> rubbleInstances g \<and> rubbleData s \<noteq> []")
  case False
  then have "cleanup g s = Inr (s\<lparr>stack := [], activeBlock := None\<rparr>)"
    by (auto simp: cleanup_def)
  with assms have "s' = s\<lparr>stack := [], activeBlock := None\<rparr>"
    by simp
  then have "s' = s\<lparr>stack := [], activeBlock := None, rubbleFree := rubbleFree s,
      rubbleActive := rubbleActive s, rubbleData := rubbleData s\<rparr>"
    by (simp (no_asm_simp))
  then show ?thesis by (rule that)
next
  case True
  show ?thesis
  proof (cases "MAX_RUBBLE \<le> length (rubbleData s)")
    case False
    with True assms show ?thesis by (simp add: cleanup_short)
  next
    case le: True
    from True le assms have "s' = s\<lparr>stack := [], activeBlock := None,
        rubbleFree := [0..<MAX_RUBBLE], rubbleActive := [],
        rubbleData := map (\<lambda>r. r\<lparr>isActive := False\<rparr>) (take MAX_RUBBLE (rubbleData s))
                        @ drop MAX_RUBBLE (rubbleData s)\<rparr>"
      by (simp add: cleanup_pool)
    then show ?thesis by (rule that)
  qed
qed

lemma cleanup_frame:
  assumes "cleanup g s = Inr s'"
  shows "stack s' = [] \<and> activeBlock s' = None \<and> score s' = score s
    \<and> status s' = status s \<and> continuesUsed s' = continuesUsed s
    \<and> difficulty s' = difficulty s"
  using assms by (rule cleanup_result) simp

lemma createFoundation_frame:
  assumes "createFoundation g s = Inr s'"
  shows "length (stack s') = length (stack s) + 1 \<and> score s' = score s
    \<and> continuesUsed s' = continuesUsed s
    \<and> rubbleFree s' = rubbleFree s \<and> rubbleActive s' = rubbleActive s
    \<and> rubbleData s' = rubbleData s \<and> scene g"
  using assms by (auto simp: createFoundation_def split: if_splits)

lemma startGame_frame:
  assumes "startGame g now r s = Inr s'"
  shows "continuesUsed s' = continuesUsed s \<and> score s' = 0 \<and> length (stack s') = 1
    \<and> status s' = PLAYING"
proof -
  from assms obtain s1 where c: "cleanup g (s\<lparr>continueUsed := False, continuePending := False\<rparr>) = Inr s1"
    by (auto simp: startGame_def split: sum.splits)
  note f1 = cleanup_frame [OF c]
  let ?s2 = "s1\<lparr>status := PLAYING, score := 0, combo := 0, maxSessionCombo := 0,
                      speed := initial (DIFFICULTIES (difficulty s1)), axis := AxisX,
                      powerUps := [None, None, None],
                      slowMo_active := False, slowMo_duration := 0,
                      safetyNet_active := False, safetyNet_uses := 0,
                      superSize_active := False, superSize_count := 0,
                      lastComboMilestone := 0\<rparr>"
  from assms c obtain s3 where cf: "createFoundation g ?s2 = Inr s3"
    by (auto simp: startGame_def Let_def split: sum.splits)
  note f3 = createFoundation_frame [OF cf]
  have st3: "status s3 = PLAYING" using cf by (auto simp: createFoundation_def split: if_splits)
  show ?thesis
  proof (cases "spawnNewBlock g now r s3")
    case (Inl e)
    with assms c cf have "s' = s3\<lparr>axis := otherAxis (axis s3)\<rparr>"
      by (simp add: startGame_def Let_def)
    with f1 f3 st3 show ?thesis by simp
  next
    case (Inr s4)
    with assms c cf have "s' = s4"
      by (simp add: startGame_def Let_def)
    with spawnNewBlock_frame [OF Inr] f1 f3 st3 show ?thesis by simp
  qed
qed


lemma startGame_poolInv:
  assumes "startGame g now r s = Inr s'" and "poolInv s" and "rubbleInstances g"
  shows "poolInv s'"
proof -
  let ?s0 = "s\<lparr>continueUsed := False, continuePending := False\<rparr>"
  from assms(1) obtain s1 where c: "cleanup g ?s0 = Inr s1"
    by (auto simp: startGame_def split: sum.splits)
  let ?s2 = "s1\<lparr>status := PLAYING, score := 0, combo := 0, maxSessionCombo := 0,
                      speed := initial (DIFFICULTIES (difficulty s1)), axis := AxisX,
                      powerUps := [None, None, None],
                      slowMo_active := False, slowMo_duration := 0,
                      safetyNet_active := False, safetyNet_uses := 0,
                      superSize_active := False, superSize_count := 0,
                      lastComboMilestone := 0\<rparr>"
  from assms(1) c obtain s3 where cf: "createFoundation g ?s2 = Inr s3"
    by (auto simp: startGame_def Let_def split: sum.splits)
  note f3 = createFoundation_frame [OF cf]
  then have g: "scene g" by simp
  from assms(2) have len: "length (rubbleData ?s0) = MAX_RUBBLE" by (simp add: poolInv_def)
  from cleanup_poolInv [OF g assms(3) len] c have p1: "poolInv s1" by auto
  with f3 have p3: "poolInv s3" by (auto intro: poolInv_eqI)
  show ?thesis
  proof (cases "spawnNewBlock g now r s3")
    case (Inl e)
    with assms(1) c cf have "s' = s3\<lparr>axis := otherAxis (axis s3)\<rparr>"
      by (simp add: startGame_def Let_def)
    with p3 show ?thesis by (auto intro: poolInv_eqI)
  next
    case (Inr s4)
    with assms(1) c cf have "s' = s4"
      by (simp add: startGame_def Let_def)
    with spawnNewBlock_frame [OF Inr] p3 show ?thesis by (auto intro: poolInv_eqI)
  qed
qed

lemma backToMenu_frame:
  assumes "backToMenu g s = Inr s'"
  shows "continuesUsed s' = continuesUsed s \<and> score s' = score s
    \<and> (stack s' = [] \<or> stack s' = stack s) \<and> status s' = START"
proof (cases "status s = GAMEOVER")
  case True
  with assms obtain s1 where c: "cleanup g s = Inr s1"
    and s': "s' = s1\<lparr>stack := [], activeBlock := None, status := START\<rparr>"
    by (auto simp: backToMenu_def split: sum.splits)
  from cleanup_frame [OF c] s' show ?thesis by simp
next
  case False
  with assms show ?thesis by (auto simp: backToMenu_def)
qed

lemma backToMenu_poolInv:
  assumes "backToMenu g s = Inr s'" and "poolInv s" and "scene g" and "rubbleInstances g"
  shows "poolInv s'"
proof (cases "status s = GAMEOVER")
  case True
  with assms(1) obtain s1 where c: "cleanup g s = Inr s1"
    and s': "s' = s1\<lparr>stack := [], activeBlock := None, status := START\<rparr>"
    by (auto simp: backToMenu_def split: sum.splits)
  from assms(2) have len: "length (rubbleData s) = MAX_RUBBLE" by (simp add: poolInv_def)
  from cleanup_poolInv [OF assms(3,4) len] c have "poolInv s1" by auto
  with s' show ?thesis by (auto intro: poolInv_eqI)
next
  case False
  with assms(1) have "s' = s\<lparr>status := START\<rparr>" by (auto simp: backToMenu_def)
  with assms(2) show ?thesis by (auto intro: poolInv_eqI)
qed

lemma resetSizeEffect_frame:
  "length (stack (resetSizeEffect s)) = length (stack s)"
  "score (resetSizeEffect s) = score s"
  "continuesUsed (resetSizeEffect s) = continuesUsed s"
  "rubbleFree (resetSizeEffect s) = rubbleFree s"
  "rubbleActive (resetSizeEffect s) = rubbleActive s"
  "rubbleData (resetSizeEffect s) = rubbleData s"
  by (auto simp: resetSizeEffect_def Let_def split: option.splits)

lemma activatePowerUp_frame:
  "length (stack (activatePowerUp s i)) = length (stack s)"
  "score (activatePowerUp s i) = score s"
  "continuesUsed (activatePowerUp s i) = continuesUsed s"
  "rubbleFree (activatePowerUp s i) = rubbleFree s"
  "rubbleActive (activatePowerUp s i) = rubbleActive s"
  "rubbleData (activatePowerUp s i) = rubbleData s"
  by (auto simp: activatePowerUp_def Let_def resetSizeEffect_frame
      split: option.splits powerUp.splits)

lemma moveActiveBlock_frame:
  "stack (moveActiveBlock dt s) = stack s"
  "score (moveActiveBlock dt s) = score s"
  "continuesUsed (moveActiveBlock dt s) = continuesUsed s"
  "rubbleFree (moveActiveBlock dt s) = rubbleFree s"
  "rubbleActive (moveActiveBlock dt s) = rubbleActive s"
  "rubbleData (moveActiveBlock dt s) = rubbleData s"
  by (auto simp: moveActiveBlock_def Let_def split: option.splits)

lemma rubbleStep_frame:
  "rubbleStep g dt a s = Inr s' \<Longrightarrow>
     stack s' = stack s \<and> score s' = score s \<and> continuesUsed s' = continuesUsed s"
  by (auto simp: rubbleStep_def Let_def split: if_splits)

lemma rubbleLoop_frame:
  "rubbleLoop g dt n s = Inr s' \<Longrightarrow>
     stack s' = stack s \<and> score s' = score s \<and> continuesUsed s' = continuesUsed s"
proof (induction n arbitrary: s)
  case 0
  then show ?case by simp
next
  case (Suc n)
  then obtain s1 where s1: "rubbleStep g dt n s = Inr s1" "rubbleLoop g dt n s1 = Inr s'"
    by (auto split: sum.splits)
  from rubbleStep_frame [OF s1(1)] Suc.IH [OF s1(2)] show ?case by simp
qed

lemma animate_frame:
  "animate g dt s = Inr s' \<Longrightarrow>
     stack s' = stack s \<and> score s' = score s \<and> continuesUsed s' = continuesUsed s"
  unfolding animate_def updateRubble_def
  by (drule rubbleLoop_frame) (simp add: moveActiveBlock_frame)

lemma animate_poolInv:
  assumes "animate g dt s = Inr s'" and "poolInv s" and "rubbleInstances g"
  shows "poolInv s'"
proof -
  from assms(2) have "poolInv (moveActiveBlock dt s)"
    by (rule poolInv_eqI) (simp_all add: moveActiveBlock_frame)
  from updateRubble_poolInv [OF this assms(3), of dt] assms(1) show ?thesis
    by (auto simp: animate_def)
qed

lemma initEngine_frame:
  assumes "initEngine s = Inr s'"
  shows "continuesUsed s' = continuesUsed s \<and> score s' = score s
    \<and> length (stack s') = length (stack s) + 1"
  using assms by (auto simp: initEngine_def dest!: createFoundation_frame)

lemma initEngine_poolInv:
  assumes "initEngine s = Inr s'" and "length (rubbleData s) \<le> MAX_RUBBLE"
  shows "poolInv s'"
proof -
  let ?s0 = "s\<lparr>rubbleFree := [0..<MAX_RUBBLE], rubbleActive := [],
          rubbleData := replicate MAX_RUBBLE freshRubble @ drop MAX_RUBBLE (rubbleData s)\<rparr>"
  have "poolInv ?s0"
    using assms(2) by (simp add: poolInv_def freshRubble_def)
  moreover from assms(1) have "createFoundation engineReady ?s0 = Inr s'"
    by (simp add: initEngine_def)
  ultimately show ?thesis
    using createFoundation_frame [of engineReady ?s0 s'] by (auto intro: poolInv_eqI)
qed

subsection \<open>Invariants of the running application\<close>

text \<open>
  The pool invariant, the bound on \<^verbatim>\<open>continuesUsed\<close>, and the score as the number of
  blocks above the foundation hold in every state the application goes through.
\<close>

lemma reachable_poolInv: "reachable s \<Longrightarrow> poolInv s"
proof (induction rule: reachable.induct)
  case (boot bs bst d s)
  from initEngine_poolInv [OF boot] have "poolInv s" by (simp add: initialState_def)
  then show ?case by (rule poolInv_eqI) simp_all
next
  case (start s now r s')
  then show ?case by (auto intro: startGame_poolInv simp: engineReady_def)
next
  case (setDifficulty s d)
  then show ?case by (auto intro: poolInv_eqI)
next
  case (place s now rnd s')
  then show ?case by (auto intro: placeBlock_poolInv simp: engineReady_def)
next
  case (continue s)
  then show ?case by (auto intro: poolInv_eqI simp: continueGame_def)
next
  case (resume s)
  then show ?case by (auto intro: poolInv_eqI simp: resumeGame_def)
next
  case (pause s)
  then show ?case by (auto intro: poolInv_eqI simp: pauseGame_def)
next
  case (menu s s')
  then show ?case by (auto intro: backToMenu_poolInv simp: engineReady_def)
next
  case (activate s slotIndex)
  then show ?case
    by (auto intro: poolInv_eqI simp: activatePowerUp_frame)
next
  case (frame s dt s')
  then show ?case by (auto intro: animate_poolInv simp: engineReady_def)
qed

lemma reachable_continuesUsed: "reachable s \<Longrightarrow> 0 \<le> continuesUsed s \<and> continuesUsed s \<le> 1"
proof (induction rule: reachable.induct)
  case (boot bs bst d s)
  from initEngine_frame [OF boot] show ?case by (simp add: initialState_def)
next
  case (start s now r s')
  with startGame_frame [OF start(3)] show ?case by simp
next
  case (place s now rnd s')
  with placeBlock_continuesUsed [OF place(3)] show ?case by simp
next
  case (continue s)
  then show ?case by (simp add: continueGame_def canContinue_def)
next
  case (menu s s')
  with backToMenu_frame [OF menu(3)] show ?case by simp
next
  case (frame s dt s')
  with animate_frame [OF frame(3)] show ?case by simp
qed (simp_all add: resumeGame_def pauseGame_def activatePowerUp_frame)

lemma reachable_score_stack:
  "reachable s \<Longrightarrow> stack s \<noteq> [] \<longrightarrow> score s + 1 = int (length (stack s))"
proof (induction rule: reachable.induct)
  case (boot bs bst d s)
  from initEngine_frame [OF boot] show ?case by (simp add: initialState_def)
next
  case (start s now r s')
  with startGame_frame [OF start(3)] show ?case by simp
next
  case (place s now rnd s')
  from placeBlock_score_stack [OF place(3) place(4)] show ?case .
next
  case (continue s)
  then show ?case by (simp add: continueGame_def)
next
  case (menu s s')
  with backToMenu_frame [OF menu(3)] show ?case by auto
next
  case (frame s dt s')
  with animate_frame [OF frame(3)] show ?case by simp
next
  case (activate s slotIndex)
  then show ?case
    using activatePowerUp_frame(1,2) [of s slotIndex] by (cases "stack s = []") auto
qed (simp_all add: resumeGame_def pauseGame_def)

text \<open>
  C4. After \<^verbatim>\<open>initEngine\<close> the free list and the active list together hold each of
  the 80 slot indices once, and \<^verbatim>\<open>spawnRubble\<close>, the rubble loop of
  \<^verbatim>\<open>animate\<close> and \<^verbatim>\<open>cleanup\<close> keep it so (\<open>reachable_poolInv\<close> and the lemmas it
  rests on). \<^verbatim>\<open>resetGameState\<close> does not: it empties the active list and leaves the
  free list and the flags alone. At the state after one cut the two lists hold 80
  indices before \<^verbatim>\<open>resetGameState\<close> and 79 after it; slot 79 is then on neither
  list and still flagged active.
\<close>

theorem C4_resetGameState_loses_slot:
  "length (rubbleFree cutState) + length (rubbleActive cutState) = 80
   \<and> length (rubbleFree (resetGameState cutState))
       + length (rubbleActive (resetGameState cutState)) = 79
   \<and> 79 \<notin> set (rubbleFree (resetGameState cutState) @ rubbleActive (resetGameState cutState))
   \<and> isActive (rubbleData (resetGameState cutState) ! 79)"
  by (simp add: resetGameState_def cutState_def fragment_def)

subsection \<open>continueGame\<close>

text \<open>The example game is one the application goes through.\<close>

lemma startGame_bootState: "startGame engineReady 5000 0.7 bootState = Inr startedState"
proof -
  have g: "scene engineReady" "rubbleInstances engineReady"
    by (simp_all add: engineReady_def)
  let ?s0 = "bootState\<lparr>continueUsed := False, continuePending := False\<rparr>"
  have ne: "rubbleData ?s0 \<noteq> []" and le: "MAX_RUBBLE \<le> length (rubbleData ?s0)"
    by (simp_all add: bootState_def MAX_RUBBLE_def)
  have f: "freshRubble\<lparr>isActive := False\<rparr> = freshRubble"
    by (simp add: freshRubble_def)
  have c: "cleanup engineReady ?s0 = Inr (bootState\<lparr>stack := []\<rparr>)"
    unfolding cleanup_pool [OF g ne le]
    by (simp add: bootState_def initialState_def MAX_RUBBLE_def f)
  show ?thesis
    unfolding startGame_def c
    by (simp add: createFoundation_def spawnNewBlock_def otherAxis_def Let_def
        startedState_def bootState_def initialState_def foundationBlock_def spawnedBlock_def
        engineReady_def BLOCK_HEIGHT_def INITIAL_SIZE_def)
qed

lemma reachable_bootState: "reachable bootState"
proof -
  have "initEngine (initialState\<lparr>bestScore := 0, bestStreak := 0, difficulty := medium\<rparr>)
      = Inr (bootState\<lparr>status := LOADING\<rparr>)"
    using initEngine_initialState by (simp add: initialState_def)
  from reachable.boot [OF this] show ?thesis by (simp add: bootState_def initialState_def)
qed

lemma reachable_startedState: "reachable startedState"
  by (rule reachable.start [OF reachable_bootState _ startGame_bootState])
    (simp add: bootState_def)

lemma placeBlock_startedState:
  "placeBlock engineReady 9000 someRandoms startedState = Inr (gameOver startedState)"
  by (simp add: placeBlock_def inGrace_def overlap_defs example_defs)

lemma reachable_continued: "reachable (continueGame (gameOver startedState))"
proof -
  have "reachable (gameOver startedState)"
    by (rule reachable.place [OF reachable_startedState _ placeBlock_startedState])
      (simp add: startedState_def)
  then show ?thesis
    by (rule reachable.continue)
      (simp_all add: status_gameOver canContinue_def startedState_def bootState_def
        initialState_def)
qed

text \<open>
  C5, as the code has it. \<^verbatim>\<open>continueGame\<close> has no test of its own: every call adds
  1 to \<^verbatim>\<open>continuesUsed\<close>, sets the status to PLAYING and grants the safety net with
  one use and 5 seconds of slow motion. The limit is the game over screen's, which
  offers the action only while \<open>canContinue\<close> holds: in every state the application goes
  through \<^verbatim>\<open>continuesUsed\<close> is 0 or 1, and once it is 1 the action is not offered.
\<close>

theorem C5_continue_limited_by_offer:
  "(reachable s \<longrightarrow>
      0 \<le> continuesUsed s \<and> continuesUsed s \<le> 1
      \<and> (continuesUsed s = 1 \<longrightarrow> \<not> canContinue s))
   \<and> continuesUsed (continueGame s) = continuesUsed s + 1
   \<and> status (continueGame s) = PLAYING
   \<and> safetyNet_active (continueGame s) \<and> safetyNet_uses (continueGame s) = 1
   \<and> slowMo_active (continueGame s) \<and> slowMo_duration (continueGame s) = 5"
  using reachable_continuesUsed [of s]
  by (simp add: continueGame_def canContinue_def)

theorem C5_witness:
  "reachable (continueGame (gameOver startedState))
   \<and> continuesUsed (continueGame (gameOver startedState)) = 1
   \<and> \<not> canContinue (continueGame (gameOver startedState))
   \<and> continuesUsed (gameOver startedState) = 0
   \<and> status (continueGame (gameOver startedState)) = PLAYING"
proof -
  have 0: "continuesUsed (gameOver startedState) = 0"
    by (simp add: startedState_def bootState_def initialState_def)
  from C5_continue_limited_by_offer [of "gameOver startedState"] 0
  have 1: "continuesUsed (continueGame (gameOver startedState)) = 1"
    "status (continueGame (gameOver startedState)) = PLAYING"
    by simp_all
  from C5_continue_limited_by_offer [of "continueGame (gameOver startedState)"]
    reachable_continued 1
  have "\<not> canContinue (continueGame (gameOver startedState))" by simp
  with reachable_continued 0 1 show ?thesis by simp
qed

text \<open>
  The claim as stated fails for the function: a second call of \<^verbatim>\<open>continueGame\<close>,
  after a second game over, returns to PLAYING with the rewards, and
  \<^verbatim>\<open>continuesUsed\<close> is 2.
\<close>

theorem C5_counterexample:
  "status (gameOver (continueGame (gameOver startedState))) = GAMEOVER
   \<and> continuesUsed (gameOver (continueGame (gameOver startedState))) = 1
   \<and> continuesUsed (continueGame (gameOver (continueGame (gameOver startedState)))) = 2
   \<and> status (continueGame (gameOver (continueGame (gameOver startedState)))) = PLAYING
   \<and> safetyNet_active (continueGame (gameOver (continueGame (gameOver startedState))))
   \<and> slowMo_active (continueGame (gameOver (continueGame (gameOver startedState))))"
  by (simp add: continueGame_def status_gameOver startedState_def bootState_def
      initialState_def)

subsection \<open>placeBlock: the mercy rule\<close>

lemmas height_three_defs = secondBlock_def thirdBlock_def offsetBlock_def heightThreeState_def

text \<open>
  C6, as the code has it. At difficulty medium with three blocks on the stack (the
  foundation counts; 3 is at most the mercy count 5), combo 0 and an active block, wider
  than 0.05, whose offset from the top block on the motion axis \<open>x\<close> is 0.2: the mercy
  threshold is 0.35 and the offset is rounded to 0; the placement is perfect, the block is
  pushed untrimmed with its \<open>x\<close> position that of the block below, and no rubble slot
  moves. Afterwards the combo is 1 and the score is one more than before. The score of a
  game is the stack height minus one (\<open>reachable_score_stack\<close>: the foundation is not
  scored), so the score becomes 3.
\<close>

theorem C6_mercy_perfect_placement:
  assumes "difficulty s = medium" and "length (stack s) = 3" and "combo s = 0"
    and "axis s = AxisX" and "activeBlock s = Some active" and "\<not> inGrace now s"
    and "scene g"
    and "vec_x (position active) - vec_x (position (last (stack s))) = 0.2"
    and "0.05 < width active"
    and "score s + 1 = int (length (stack s))"
  shows "\<exists>s' placed. placeBlock g now rnd s = Inr s'
    \<and> mercyThreshold s = 0.35
    \<and> placeDelta s active (last (stack s)) = 0
    \<and> stack s' = stack s @ [placed]
    \<and> vec_x (position placed) = vec_x (position (last (stack s)))
    \<and> width placed = width active \<and> depth placed = depth active
    \<and> rubbleActive s' = rubbleActive s \<and> rubbleFree s' = rubbleFree s
    \<and> combo s' = 1 \<and> score s' = score s + 1 \<and> score s' = 3"
proof -
  let ?prev = "last (stack s)"
  from assms(2) have ne: "stack s \<noteq> []" by auto
  have th: "mercyThreshold s = 0.35"
    using assms(1,2) by (simp add: mercyThreshold_def)
  have d: "placeDelta s active ?prev = 0"
    using assms(4,8) th by (simp add: placeDelta_def)
  have ov: "placeOverlap s active ?prev = width active"
    using d assms(4) by (simp add: placeOverlap_def sizeOn_def)
  obtain s1 active' where pp: "placePerfect rnd s active ?prev = (s1, active')"
    by (cases "placePerfect rnd s active ?prev")
  have pb: "placeBlock g now rnd s = finishPlacement g now rnd s1 active'"
    using assms(5,6,9) ne d ov pp by (simp add: placeBlock_def)
  from finishPlacement_ok [OF assms(7), of now rnd s1 active']
  obtain s' where f: "finishPlacement g now rnd s1 active' = Inr s'"
    "stack s' = stack s1 @ [active']" "score s' = score s1 + 1" "combo s' = combo s1"
    "rubbleFree s' = rubbleFree s1" "rubbleActive s' = rubbleActive s1"
    by blast
  from placePerfect_frame [OF pp] f pb th d assms(2,3,4,10) show ?thesis
    by simp
qed

theorem C6_witness:
  "difficulty heightThreeState = medium \<and> length (stack heightThreeState) = 3
   \<and> combo heightThreeState = 0 \<and> axis heightThreeState = AxisX
   \<and> activeBlock heightThreeState = Some offsetBlock \<and> \<not> inGrace 23000 heightThreeState
   \<and> scene engineReady
   \<and> vec_x (position offsetBlock) - vec_x (position (last (stack heightThreeState))) = 0.2
   \<and> 0.05 < width offsetBlock
   \<and> score heightThreeState + 1 = int (length (stack heightThreeState))
   \<and> (\<exists>s' placed. placeBlock engineReady 23000 someRandoms heightThreeState = Inr s'
         \<and> stack s' = [foundationBlock, secondBlock, thirdBlock, placed]
         \<and> vec_x (position placed) = 0 \<and> combo s' = 1 \<and> score s' = 3)"
proof -
  have h1: "difficulty heightThreeState = medium"
    and h2: "length (stack heightThreeState) = 3"
    and h3: "combo heightThreeState = 0"
    and h4: "axis heightThreeState = AxisX"
    and h5: "activeBlock heightThreeState = Some offsetBlock"
    and h6: "\<not> inGrace 23000 heightThreeState"
    and h7: "scene engineReady"
    and h10: "score heightThreeState + 1 = int (length (stack heightThreeState))"
    by (simp_all add: inGrace_def heightThreeState_def startedState_def bootState_def
        initialState_def engineReady_def)
  have h8: "vec_x (position offsetBlock) - vec_x (position (last (stack heightThreeState))) = 0.2"
    and h9: "0.05 < width offsetBlock"
    and st: "stack heightThreeState = [foundationBlock, secondBlock, thirdBlock]"
    and px: "vec_x (position thirdBlock) = 0"
    by (simp_all add: heightThreeState_def offsetBlock_def thirdBlock_def)
  from C6_mercy_perfect_placement [OF h1 h2 h3 h4 h5 h6 h7 h8 h9 h10, where rnd = someRandoms]
  obtain s' placed where r: "placeBlock engineReady 23000 someRandoms heightThreeState = Inr s'"
    "stack s' = stack heightThreeState @ [placed]"
    "vec_x (position placed) = vec_x (position (last (stack heightThreeState)))"
    "combo s' = 1" "score s' = 3"
    by blast
  from r(2,3) st px have "stack s' = [foundationBlock, secondBlock, thirdBlock, placed]"
    "vec_x (position placed) = 0"
    by simp_all
  with r(1,4,5) h1 h2 h3 h4 h5 h6 h7 h8 h9 h10 show ?thesis by blast
qed

text \<open>
  The claim as stated fails on the score: in the example game at stack height 3 the score
  is 2, and after the perfect placement it is 3, not 4.
\<close>

theorem C6_counterexample:
  "difficulty heightThreeState = medium \<and> length (stack heightThreeState) = 3
   \<and> combo heightThreeState = 0 \<and> axis heightThreeState = AxisX
   \<and> activeBlock heightThreeState = Some offsetBlock
   \<and> vec_x (position offsetBlock) - vec_x (position (last (stack heightThreeState))) = 0.2
   \<and> score heightThreeState = 2
   \<and> map_sum id combo (placeBlock engineReady 23000 someRandoms heightThreeState) = Inr 1
   \<and> map_sum id score (placeBlock engineReady 23000 someRandoms heightThreeState) = Inr 3
   \<and> map_sum id score (placeBlock engineReady 23000 someRandoms heightThreeState) \<noteq> Inr 4"
  by (simp add: placeBlock_def inGrace_def overlap_defs example_defs height_three_defs
      placePerfect_def triggerPerfectFeedback_def triggerShake_def decrementSuperSize_def
      finishPlacement_def spawnNewBlock_def otherAxis_def Let_def)

end
